theory Spec2Isabelle
  imports Complex_Main
begin

section \<open>JavaScript numbers\<close>

text \<open>
  The decision engine (CFR.js and its two stand-alone copies) computes with JavaScript
  numbers, and three of their special values decide what the code returns:
  \<open>Number.NEGATIVE_INFINITY\<close>, its positive twin and \<open>NaN\<close>. A number is modelled as one
  of these or as a finite value. Finite arithmetic is exact rational arithmetic: rounding
  and overflow of finite values are not modelled. The sign of zero is not modelled either;
  it is observable only through a division by zero, and the divisors of the modelled code
  are \<open>52 - cardsDealt\<close> (never the negative zero), \<open>remainingPlayers\<close> below a test
  \<open>remainingPlayers > 1\<close>, and the constant 13, so a zero divisor is the positive zero.
  A value that is \<open>undefined\<close> where a number is expected is \<open>NaN\<close>, as the arithmetic
  operators of JavaScript convert it.
\<close>

datatype jsnum = Fin rat | PosInf | NegInf | NaN

fun js_neg :: "jsnum \<Rightarrow> jsnum" where
  "js_neg (Fin x) = Fin (- x)"
| "js_neg PosInf = NegInf"
| "js_neg NegInf = PosInf"
| "js_neg NaN = NaN"

fun js_add :: "jsnum \<Rightarrow> jsnum \<Rightarrow> jsnum" where
  "js_add NaN _ = NaN"
| "js_add _ NaN = NaN"
| "js_add (Fin x) (Fin y) = Fin (x + y)"
| "js_add (Fin x) PosInf = PosInf"
| "js_add (Fin x) NegInf = NegInf"
| "js_add PosInf NegInf = NaN"
| "js_add NegInf PosInf = NaN"
| "js_add PosInf _ = PosInf"
| "js_add NegInf _ = NegInf"

definition js_sub :: "jsnum \<Rightarrow> jsnum \<Rightarrow> jsnum" where
  "js_sub a b = js_add a (js_neg b)"

text \<open>The sign of a number that is not \<open>NaN\<close>: \<open>1\<close>, \<open>0\<close> or \<open>-1\<close>.\<close>

fun js_sign :: "jsnum \<Rightarrow> int" where
  "js_sign (Fin x) = (if x > 0 then 1 else if x < 0 then - 1 else 0)"
| "js_sign PosInf = 1"
| "js_sign NegInf = - 1"
| "js_sign NaN = 0"

definition signed_inf :: "int \<Rightarrow> jsnum" where
  "signed_inf sg = (if sg > 0 then PosInf else if sg < 0 then NegInf else NaN)"

fun js_mul :: "jsnum \<Rightarrow> jsnum \<Rightarrow> jsnum" where
  "js_mul NaN _ = NaN"
| "js_mul _ NaN = NaN"
| "js_mul (Fin x) (Fin y) = Fin (x * y)"
| "js_mul a b = signed_inf (js_sign a * js_sign b)"

fun js_div :: "jsnum \<Rightarrow> jsnum \<Rightarrow> jsnum" where
  "js_div NaN _ = NaN"
| "js_div _ NaN = NaN"
| "js_div (Fin x) (Fin y) = (if y = 0 then signed_inf (js_sign (Fin x)) else Fin (x / y))"
| "js_div (Fin x) _ = Fin 0"
| "js_div a (Fin y) = signed_inf (js_sign a * (if y < 0 then - 1 else 1))"
| "js_div _ _ = NaN"

fun js_lt :: "jsnum \<Rightarrow> jsnum \<Rightarrow> bool" where
  "js_lt NaN _ = False"
| "js_lt _ NaN = False"
| "js_lt (Fin x) (Fin y) = (x < y)"
| "js_lt PosInf _ = False"
| "js_lt _ NegInf = False"
| "js_lt _ _ = True"

definition js_gt :: "jsnum \<Rightarrow> jsnum \<Rightarrow> bool" where
  "js_gt a b = js_lt b a"

definition js_ge :: "jsnum \<Rightarrow> jsnum \<Rightarrow> bool" where
  "js_ge a b = (a \<noteq> NaN \<and> b \<noteq> NaN \<and> \<not> js_lt a b)"

text \<open>\<open>Math.min\<close> of two numbers: \<open>NaN\<close> when either is.\<close>

fun js_min :: "jsnum \<Rightarrow> jsnum \<Rightarrow> jsnum" where
  "js_min NaN _ = NaN"
| "js_min _ NaN = NaN"
| "js_min a b = (if js_lt b a then b else a)"

text \<open>
  \<open>Math.max(...xs)\<close> of an array of integers: \<open>-Infinity\<close> for the empty array.
\<close>

definition Math_max :: "int list \<Rightarrow> jsnum" where
  "Math_max xs = (if xs = [] then NegInf else Fin (of_int (fold max (tl xs) (hd xs))))"

text \<open>A property that holds a number, read where it may be missing.\<close>

definition num_of :: "jsnum option \<Rightarrow> jsnum" where
  "num_of v = (case v of None \<Rightarrow> NaN | Some x \<Rightarrow> x)"

text \<open>\<open>xs.indexOf(x)\<close> and \<open>xs.lastIndexOf(x)\<close>: \<open>-1\<close> when \<open>x\<close> is absent.\<close>

fun indexOf :: "'a list \<Rightarrow> 'a \<Rightarrow> int" where
  "indexOf [] x = - 1"
| "indexOf (y # ys) x = (if y = x then 0 else (let r = indexOf ys x in if r < 0 then - 1 else r + 1))"

definition lastIndexOf :: "'a list \<Rightarrow> 'a \<Rightarrow> int" where
  "lastIndexOf xs x = (let r = indexOf (rev xs) x in if r < 0 then - 1 else int (length xs) - 1 - r)"

section \<open>The decision engine: CFR.js\<close>

datatype error = TypeError

text \<open>
  A card as the decision engine reads it: it looks at \<open>card.value\<close> for the rank counts,
  at \<open>card.rank\<close> for the straight and at \<open>card.suit\<close>; each property may be missing.
  An entry of a card array may itself be \<open>undefined\<close> (\<open>None\<close>). Property names are
  assumed not to be members of \<open>Object.prototype\<close>, which a count object would inherit.
\<close>

record cfr_card =
  c_rank :: "string option"
  c_value :: "string option"
  c_suit :: "string option"

record currentState =
  playerHand :: "cfr_card option list"
  stateCommunityCards :: "cfr_card option list"
  potSize :: jsnum
  playerBet :: jsnum
  remainingPlayers :: jsnum
  canCheck :: bool
  canCall :: bool
  canRaise :: bool
  canAllIn :: bool
  canFold :: bool
  raiseAmount :: jsnum
  playerStack :: jsnum
  cardsDealt :: jsnum

definition rankOrder :: "string list" where
  "rankOrder = [''2'', ''3'', ''4'', ''5'', ''6'', ''7''] @ [''8'', ''9'', ''10'', ''J'', ''Q'', ''K'', ''A'']"

text \<open>The values of a count object: one count for each distinct key.\<close>

definition countValues :: "'a list \<Rightarrow> int list" where
  "countValues ks = map (\<lambda>k. int (count_list ks k)) (remdups ks)"

definition suitKey :: "cfr_card \<Rightarrow> string" where
  "suitKey c = (case c_suit c of None \<Rightarrow> ''undefined'' | Some s \<Rightarrow> s)"

definition truthyValues :: "cfr_card list \<Rightarrow> string list" where
  "truthyValues cs = concat (map (\<lambda>c. case c_value c of None \<Rightarrow> [] | Some v \<Rightarrow> (if v = [] then [] else [v])) cs)"

definition rankIndexOf :: "cfr_card \<Rightarrow> int" where
  "rankIndexOf c = (case c_rank c of None \<Rightarrow> - 1 | Some r \<Rightarrow> indexOf rankOrder r)"

definition isStraightCFR :: "int list \<Rightarrow> bool" where
  "isStraightCFR rankIndices =
     list_ex (\<lambda>i. rankIndices ! (i + 4) - rankIndices ! i = 4) [0 ..< length rankIndices - 4]"

text \<open>
  \<open>calculateHandStrength(playerHand, communityCards)\<close> of CFR.js. An \<open>undefined\<close> card
  is logged by the first loop and makes the second one (\<open>card.suit\<close>) throw.
\<close>

definition calculateHandStrength :: "cfr_card option list \<Rightarrow> cfr_card option list \<Rightarrow> error + jsnum" where
  "calculateHandStrength hand community =
     (let allCards = hand @ community in
      if None \<in> set allCards then Inl TypeError
      else
        let cs = map the allCards;
            counts = countValues (truthyValues cs);
            maxCount = Math_max counts;
            maxSuitCount = Math_max (countValues (map suitKey cs));
            rankIndices = sort (map rankIndexOf cs);
            isStraight = isStraightCFR rankIndices;
            strength =
              (if js_ge maxSuitCount (Fin 5) \<and> isStraight then 1
               else if maxCount = Fin 4 then 9 / 10
               else if maxCount = Fin 3 \<and> 2 \<in> set counts then 8 / 10
               else if js_ge maxSuitCount (Fin 5) then 7 / 10
               else if isStraight then 6 / 10
               else if maxCount = Fin 3 then 5 / 10
               else if length (filter (\<lambda>c. c = 2) counts) \<ge> 2 then 4 / 10
               else if maxCount = Fin 2 then 3 / 10
               else 2 / 10);
            highCardIndex = Math_max rankIndices
        in Inr (js_add (Fin strength) (js_mul (js_div highCardIndex (Fin 13)) (Fin (1 / 10)))))"

text \<open>\<open>String.prototype.toLowerCase\<close> on the ASCII letters.\<close>

definition lowerChar :: "char \<Rightarrow> char" where
  "lowerChar c = (let n = (of_char c :: nat) in if 65 \<le> n \<and> n \<le> 90 then char_of (n + 32) else c)"

definition toLowerCase :: "string \<Rightarrow> string" where
  "toLowerCase s = map lowerChar s"

text \<open>\<open>calculateOuts\<close>: \<open>card.suit.toLowerCase()\<close> throws on a missing card or suit.\<close>

definition calculateOuts :: "cfr_card option list \<Rightarrow> cfr_card option list \<Rightarrow> error + jsnum" where
  "calculateOuts hand community =
     (let allCards = hand @ community in
      if list_ex (\<lambda>c. c = None \<or> c_suit (the c) = None) allCards then Inl TypeError
      else
        let suits = map (\<lambda>c. toLowerCase (the (c_suit (the c)))) allCards;
            maxSuitCount = fold (\<lambda>n m. if n > m then n else m) (countValues suits) 0
        in Inr (if maxSuitCount = 4 then Fin 9 else if maxSuitCount = 3 then Fin 10 else Fin 0))"

definition getImprovementFactor :: "currentState \<Rightarrow> error + jsnum" where
  "getImprovementFactor s =
     (case calculateOuts (playerHand s) (stateCommunityCards s) of
        Inl e \<Rightarrow> Inl e
      | Inr outs \<Rightarrow>
          let remainingCards = js_sub (Fin 52) (cardsDealt s)
          in Inr (js_min (js_mul (js_div outs remainingCards) (Fin 2)) (Fin 1)))"

text \<open>The \<open>switch\<close> of \<open>calculateReward\<close>: the estimate before the two adjustments.\<close>

definition baseReward :: "currentState \<Rightarrow> string \<Rightarrow> jsnum \<Rightarrow> jsnum" where
  "baseReward s action handStrength =
     (if action = ''check'' then
        (if canCheck s then js_mul handStrength (Fin (1 / 2)) else NegInf)
      else if action = ''call'' then
        (if canCall s then js_sub (js_mul handStrength (potSize s)) (playerBet s) else NegInf)
      else if action = ''raise'' then
        (if canRaise s then js_sub (js_mul handStrength (js_add (potSize s) (raiseAmount s))) (playerBet s)
         else NegInf)
      else if action = ''allin'' then
        (if canAllIn s then js_sub (js_mul handStrength (js_add (potSize s) (playerStack s))) (playerBet s)
         else NegInf)
      else if action = ''fold'' then
        (if canFold s then js_neg (playerBet s) else NegInf)
      else NegInf)"

definition calculateReward :: "currentState \<Rightarrow> string \<Rightarrow> error + jsnum" where
  "calculateReward s action =
     (case calculateHandStrength (playerHand s) (stateCommunityCards s) of
        Inl e \<Rightarrow> Inl e
      | Inr handStrength \<Rightarrow>
          let estimatedReward = baseReward s action handStrength;
              estimatedReward =
                (if js_gt (remainingPlayers s) (Fin 1) \<and> js_gt estimatedReward NegInf
                 then js_mul estimatedReward (js_div (Fin 2) (remainingPlayers s))
                 else estimatedReward)
          in (case getImprovementFactor s of
                Inl e \<Rightarrow> Inl e
              | Inr improvementFactor \<Rightarrow> Inr (js_mul estimatedReward improvementFactor)))"

definition isValidAction :: "currentState \<Rightarrow> string \<Rightarrow> bool" where
  "isValidAction s action =
     (if action = ''check'' then canCheck s
      else if action = ''call'' then canCall s
      else if action = ''raise'' then canRaise s
      else if action = ''allin'' then canAllIn s
      else if action = ''fold'' then canFold s
      else False)"

record CFRPlayer =
  actions :: "string list"
  regretSum :: "string \<rightharpoonup> jsnum"
  strategySum :: "string \<rightharpoonup> jsnum"
  numActions :: nat

text \<open>The player the constructor builds.\<close>

definition newCFRPlayer :: CFRPlayer where
  "newCFRPlayer =
     (let acts = [''check'', ''call'', ''raise'', ''allin'', ''fold''] in
      \<lparr> actions = acts,
        regretSum = map_of (map (\<lambda>a. (a, Fin 0)) acts),
        strategySum = map_of (map (\<lambda>a. (a, Fin 0)) acts),
        numActions = length acts \<rparr>)"

text \<open>
  \<open>calculateCounterfactualRewards\<close>: the rewards object, filled action by action; a throw
  inside \<open>calculateReward\<close> ends the loop.
\<close>

fun counterfactualLoop :: "currentState \<Rightarrow> string list \<Rightarrow> (string \<rightharpoonup> jsnum) \<Rightarrow> error + (string \<rightharpoonup> jsnum)" where
  "counterfactualLoop s [] rewards = Inr rewards"
| "counterfactualLoop s (action # rest) rewards =
     (if isValidAction s action then
        (case calculateReward s action of
           Inl e \<Rightarrow> Inl e
         | Inr r \<Rightarrow> counterfactualLoop s rest (rewards(action \<mapsto> r)))
      else counterfactualLoop s rest (rewards(action \<mapsto> NegInf)))"

definition calculateCounterfactualRewards :: "CFRPlayer \<Rightarrow> currentState \<Rightarrow> error + (string \<rightharpoonup> jsnum)" where
  "calculateCounterfactualRewards p s = counterfactualLoop s (actions p) Map.empty"

text \<open>
  \<open>selectAction(strategy)\<close> of the class. The value of \<open>Math.random()\<close> is the argument
  \<open>r\<close>. The loop returns \<open>Some\<close> action when it leaves through its \<open>return\<close>; the
  default after it reads \<open>this.actions[this.actions.length - 1]\<close>, which is \<open>undefined\<close>
  (\<open>None\<close>) for an empty action list.
\<close>

fun selectLoop :: "(string \<rightharpoonup> jsnum) \<Rightarrow> rat \<Rightarrow> jsnum \<Rightarrow> string list \<Rightarrow> string option" where
  "selectLoop strategy r cumulativeProbability [] = None"
| "selectLoop strategy r cumulativeProbability (action # rest) =
     (let cumulativeProbability = js_add cumulativeProbability (num_of (strategy action))
      in if js_lt (Fin r) cumulativeProbability then Some action
         else selectLoop strategy r cumulativeProbability rest)"

definition selectAction :: "CFRPlayer \<Rightarrow> (string \<rightharpoonup> jsnum) \<Rightarrow> rat \<Rightarrow> string option" where
  "selectAction p strategy r =
     (case selectLoop strategy r (Fin 0) (actions p) of
        Some action \<Rightarrow> Some action
      | None \<Rightarrow> (if actions p = [] then None else Some (last (actions p))))"

text \<open>\<open>updateRegrets(actionTaken, reward, counterfactualRewards)\<close> of the class.\<close>

definition regretStep :: "jsnum \<Rightarrow> (string \<rightharpoonup> jsnum) \<Rightarrow> string \<Rightarrow> (string \<rightharpoonup> jsnum) \<Rightarrow> (string \<rightharpoonup> jsnum)" where
  "regretStep reward counterfactualRewards action rs =
     (let regret = js_sub (num_of (counterfactualRewards action)) reward
      in rs(action \<mapsto> js_add (num_of (rs action)) regret))"

definition updateRegrets :: "CFRPlayer \<Rightarrow> string \<Rightarrow> jsnum \<Rightarrow> (string \<rightharpoonup> jsnum) \<Rightarrow> CFRPlayer" where
  "updateRegrets p actionTaken reward counterfactualRewards =
     p\<lparr>regretSum := fold (regretStep reward counterfactualRewards) (actions p) (regretSum p)\<rparr>"

text \<open>The state \<open>getCurrentState()\<close> returns.\<close>

definition mkCard :: "string \<Rightarrow> string \<Rightarrow> cfr_card option" where
  "mkCard r s = Some \<lparr> c_rank = Some r, c_value = None, c_suit = Some s \<rparr>"

definition getCurrentState :: currentState where
  "getCurrentState =
     \<lparr> playerHand = [mkCard ''A'' ''spades'', mkCard ''K'' ''spades''],
       stateCommunityCards = [mkCard ''Q'' ''spades'', mkCard ''J'' ''spades'', mkCard ''2'' ''hearts''],
       potSize = Fin 100, playerBet = Fin 10, remainingPlayers = Fin 3,
       canCheck = True, canCall = False, canRaise = True, canAllIn = True, canFold = True,
       raiseAmount = Fin 20, playerStack = Fin 1000, cardsDealt = Fin 5 \<rparr>"

section \<open>The decision engine: the stand-alone copies\<close>

text \<open>
  CFRPlayer.js and its Spanish twin keep \<open>regretSum\<close> and \<open>strategySum\<close> as global
  objects with the keys \<open>check, match, raise, allin\<close>. An object is modelled as the list
  of its entries in key order, since \<open>for (let action in strategy)\<close> and
  \<open>Object.keys\<close> walk it in that order; its keys are distinct.
\<close>

record cfr_globals =
  g_regretSum :: "(string \<times> jsnum) list"
  g_strategySum :: "(string \<times> jsnum) list"

fun selectLoop_global :: "rat \<Rightarrow> jsnum \<Rightarrow> (string \<times> jsnum) list \<Rightarrow> string option" where
  "selectLoop_global randomValue cumulativeProbability [] = None"
| "selectLoop_global randomValue cumulativeProbability ((action, v) # rest) =
     (let cumulativeProbability = js_add cumulativeProbability v
      in if js_lt (Fin randomValue) cumulativeProbability then Some action
         else selectLoop_global randomValue cumulativeProbability rest)"

definition selectAction_global :: "(string \<times> jsnum) list \<Rightarrow> rat \<Rightarrow> string" where
  "selectAction_global strategy randomValue =
     (case selectLoop_global randomValue (Fin 0) strategy of
        Some action \<Rightarrow> action
      | None \<Rightarrow> ''check'')"

definition updateRegrets_global :: "cfr_globals \<Rightarrow> string \<Rightarrow> jsnum \<Rightarrow> (string \<rightharpoonup> jsnum) \<Rightarrow> cfr_globals" where
  "updateRegrets_global g action reward counterfactualRewards =
     g\<lparr>g_regretSum :=
          map (\<lambda>(a, v). (a, js_add v (js_sub (num_of (counterfactualRewards a)) reward))) (g_regretSum g)\<rparr>"

subsection \<open>Auxiliary notions for the statements about the decision engine\<close>

text \<open>The suits of a card array, as far as \<open>calculateOuts\<close> reads them.\<close>

definition suitsOf :: "cfr_card option list \<Rightarrow> string option option list" where
  "suitsOf cs = map (map_option c_suit) cs"

text \<open>\<open>calculateOuts\<close> as a function of the suits alone.\<close>

definition outsOfSuits :: "string option option list \<Rightarrow> error + jsnum" where
  "outsOfSuits ss =
     (if list_ex (\<lambda>x. x = None \<or> the x = None) ss then Inl TypeError
      else
        let suits = map (\<lambda>x. toLowerCase (the (the x))) ss;
            maxSuitCount = fold (\<lambda>n m. if n > m then n else m) (countValues suits) 0
        in Inr (if maxSuitCount = 4 then Fin 9 else if maxSuitCount = 3 then Fin 10 else Fin 0))"

text \<open>
  In the words of the specification: the probability mass accumulated up to and including
  the action at position \<open>k\<close>, and the first position whose cumulative mass exceeds the
  draw.
\<close>

definition cumulativeMass :: "jsnum list \<Rightarrow> nat \<Rightarrow> jsnum" where
  "cumulativeMass masses k = foldl js_add (Fin 0) (take (Suc k) masses)"

definition firstExceeding :: "jsnum list \<Rightarrow> rat \<Rightarrow> nat option" where
  "firstExceeding masses r = find (\<lambda>k. js_lt (Fin r) (cumulativeMass masses k)) [0 ..< length masses]"

text \<open>Three more states: the example state with a weaker hand and a larger pot, the
  example state with no flush draw, and two strategies whose masses sum to 999/1000.\<close>

definition weakHand :: currentState where
  "weakHand = getCurrentState
     \<lparr> playerHand := [mkCard ''7'' ''spades'', mkCard ''3'' ''spades''], potSize := Fin 5000 \<rparr>"

definition noDraw :: currentState where
  "noDraw = getCurrentState
     \<lparr> playerHand := [mkCard ''A'' ''spades'', mkCard ''K'' ''hearts''],
       stateCommunityCards := [mkCard ''Q'' ''diamonds'', mkCard ''J'' ''clubs'', mkCard ''2'' ''hearts''] \<rparr>"

definition shortStrategy :: "(string \<times> jsnum) list" where
  "shortStrategy =
     [(''check'', Fin (1 / 4)), (''match'', Fin (1 / 4)), (''raise'', Fin (1 / 4)),
      (''allin'', Fin (249 / 1000))]"

definition classStrategy :: "string \<rightharpoonup> jsnum" where
  "classStrategy =
     map_of [(''check'', Fin (1 / 4)), (''call'', Fin (1 / 4)), (''raise'', Fin (1 / 4)),
             (''allin'', Fin (1 / 8)), (''fold'', Fin (124 / 1000))]"

section \<open>The hand evaluator and the showdown: Poker.js\<close>

subsection \<open>Cards and the table\<close>

text \<open>
  A card object \<open>{suit, value}\<close>, with the strings the code cuts from the card's title.
  An entry of \<open>communityCards\<close> is a card object, a number (the evaluator also stores
  numbers in this array) or \<open>undefined\<close>, which is what reading an array past its end
  yields. Reading \<open>.value\<close> of a number gives \<open>undefined\<close>; reading it of \<open>undefined\<close>
  throws a TypeError.
\<close>

record card =
  suit :: string
  val :: string

datatype slot = CardSlot card | NumSlot int | Undefined

text \<open>The \<open>dataset.status\<close> of the element of a seat, and the text of the message element.\<close>

datatype status = Ready | Betting | Checking | Folded | Finished

datatype message = NoMessage | YouWon rat | SplitWon rat | YouLost rat

text \<open>
  The global variables of Poker.js that the evaluator reads or writes. The arrays
  \<open>resultList\<close>, \<open>compareCards\<close>, \<open>playerHighCards\<close>, \<open>playerStraightHighCard\<close> and
  \<open>playersHands\<close> are created with four entries and are indexed by a seat \<open>0..3\<close>;
  \<open>plyrPairs\<close> holds the four arrays \<open>plyr1Pair .. plyr4Pair\<close>; \<open>seatStatus\<close> holds the
  \<open>dataset.status\<close> of the four seat elements, which \<open>querySelectorAll\<close> is taken to list in
  seat order. A hand that has not been dealt (\<open>undefined\<close>) is the empty list. Money is a
  rational number: the code halves the pot. \<open>topHand\<close> is \<open>None\<close> for \<open>null\<close>.
\<close>

record table =
  playersHands :: "card list list"
  communityCards :: "slot list"
  usedCardsArr :: "string list"
  resultList :: "int list"
  compareCards :: "int list"
  activePlayers :: "nat list"
  playerHighCards :: "int list"
  playerStraightHighCard :: "int list"
  bestHoleCards :: "int list list"
  plyrPairs :: "int list list"
  topHand :: "int option"
  thePot :: rat
  playerMoney :: rat
  bet :: rat
  dblBets :: bool
  maxBetHit :: bool
  seatStatus :: "status list"
  messageElement :: message

definition cardHeirarchy :: "string list" where
  "cardHeirarchy = [''two'', ''three'', ''four'', ''five'', ''six'', ''seven'', ''eight'', ''nine'',
                    ''ten'', ''jack'', ''queen'', ''king'', ''ace'']"

definition getOccurrence :: "'a list \<Rightarrow> 'a \<Rightarrow> nat" where
  "getOccurrence list v = length (filter (\<lambda>x. x = v) list)"

text \<open>\<open>Math.max(...xs)\<close> of a non-empty array of integers.\<close>

definition maxList :: "int list \<Rightarrow> int" where
  "maxList xs = fold max (tl xs) (hd xs)"

text \<open>\<open>xs[i]\<close>, \<open>undefined\<close> past the end, and \<open>xs[i] = v\<close>, which extends the array.\<close>

definition nth_opt :: "'a list \<Rightarrow> nat \<Rightarrow> 'a option" where
  "nth_opt xs i = (if i < length xs then Some (xs ! i) else None)"

definition jsSet :: "slot list \<Rightarrow> nat \<Rightarrow> slot \<Rightarrow> slot list" where
  "jsSet xs i v =
     (if i < length xs then xs[i := v] else xs @ replicate (i - length xs) Undefined @ [v])"

subsection \<open>Winning, losing and folding\<close>

datatype winType = Split | Default

definition youWin :: "winType \<Rightarrow> table \<Rightarrow> table" where
  "youWin type s =
     (let s1 = (if type = Split
                then s\<lparr>thePot := thePot s / 2, messageElement := SplitWon (thePot s / 2)\<rparr>
                else s\<lparr>messageElement := YouWon (thePot s)\<rparr>)
      in s1\<lparr>playerMoney := playerMoney s1 + thePot s1\<rparr>)"

text \<open>
  \<open>youLose(topHand)\<close> marks the element of seat \<open>topHand\<close>; the page has the seats
  \<open>0..3\<close>, and for anything else \<open>querySelector\<close> returns \<open>null\<close> and the call throws.
\<close>

definition youLose :: "int option \<Rightarrow> table \<Rightarrow> error + table" where
  "youLose th s =
     (case th of
        None \<Rightarrow> Inl TypeError
      | Some t \<Rightarrow> (if 0 \<le> t \<and> t < 4 then Inr (s\<lparr>messageElement := YouLost (bet s)\<rparr>)
                   else Inl TypeError))"

text \<open>
  \<open>removeActivePlyr\<close>. The test \<open>activePlayers == 0\<close> compares an array with a number:
  the array is converted to a string and then to a number, so the test holds for \<open>[]\<close>
  and for \<open>[0]\<close> and for no other array of seats.
\<close>

definition removeActivePlyr :: "nat \<Rightarrow> table \<Rightarrow> table" where
  "removeActivePlyr plyrID s =
     (let s1 = s\<lparr>compareCards := (compareCards s)[plyrID := - 1],
                 resultList := (resultList s)[plyrID := - 1],
                 activePlayers := filter (\<lambda>p. p \<noteq> plyrID) (activePlayers s)\<rparr>
      in if activePlayers s1 = [] \<or> activePlayers s1 = [0] then youWin Default s1 else s1)"

text \<open>\<open>showPlayersCards\<close> writes to the page only; it reads the four hands and throws on
  one that is \<open>undefined\<close>.\<close>

definition showPlayersCards :: "table \<Rightarrow> error + table" where
  "showPlayersCards s =
     (if list_ex (\<lambda>i. nth_opt (playersHands s) i = None \<or> nth_opt (playersHands s) i = Some []) [0 ..< 4]
      then Inl TypeError else Inr s)"

subsection \<open>The evaluator: tallies\<close>

definition handSlot :: "card list \<Rightarrow> nat \<Rightarrow> slot" where
  "handSlot h k = (if k < length h then CardSlot (h ! k) else Undefined)"

definition communitySlot :: "slot list \<Rightarrow> nat \<Rightarrow> slot" where
  "communitySlot cc k = (if k < length cc then cc ! k else Undefined)"

definition cardsArrOf :: "table \<Rightarrow> nat \<Rightarrow> nat \<Rightarrow> slot list" where
  "cardsArrOf s iteration gameStep =
     (let h = (if iteration < length (playersHands s) then playersHands s ! iteration else []);
          n = (if gameStep = 2 then 3 else if gameStep = 3 then 4 else if gameStep = 4 then 5 else 0)
      in [handSlot h 0, handSlot h 1] @ map (communitySlot (communityCards s)) [0 ..< n])"

definition slotValue :: "slot \<Rightarrow> string option" where
  "slotValue sl = (case sl of CardSlot c \<Rightarrow> Some (val c) | _ \<Rightarrow> None)"

definition slotSuit :: "slot \<Rightarrow> string option" where
  "slotSuit sl = (case sl of CardSlot c \<Rightarrow> Some (suit c) | _ \<Rightarrow> None)"

text \<open>
  Lines 297 to 303: every entry pushes \<open>cardHeirarchy.indexOf(value)\<close>, since the test
  \<open>!== null\<close> never fails (for an unknown or missing value \<open>indexOf\<close> is \<open>-1\<close>), and an
  ace pushes one more \<open>-1\<close>.
\<close>

definition cardIndexesOf :: "slot list \<Rightarrow> int list" where
  "cardIndexesOf cardsArr =
     concat (map (\<lambda>sl. case slotValue sl of
                          None \<Rightarrow> [- 1]
                        | Some v \<Rightarrow> indexOf cardHeirarchy v # (if v = ''ace'' then [- 1] else []))
                 cardsArr)"

definition valueArrOf :: "slot list \<Rightarrow> int list" where
  "valueArrOf cardsArr =
     map (\<lambda>name. int (length (filter (\<lambda>sl. slotValue sl = Some name) cardsArr))) cardHeirarchy"

definition suitedArrOf :: "slot list \<Rightarrow> int list" where
  "suitedArrOf cardsArr =
     map (\<lambda>name. int (length (filter (\<lambda>sl. slotSuit sl = Some name) cardsArr)))
       [''spades'', ''hearts'', ''diamonds'', ''clubs'']"

subsection \<open>The evaluator: pairs, three and four of a kind\<close>

text \<open>
  One round of the loop of lines 358 to 394, for the rank index \<open>i\<close>, in its four
  parts: a rank that is present, a pair, three of a kind, four of a kind.
\<close>

definition rankPresent :: "nat \<Rightarrow> nat \<Rightarrow> int list \<Rightarrow> nat \<Rightarrow> table \<Rightarrow> table" where
  "rankPresent iteration gameStep valueArr i s =
     (if valueArr ! i > 0 then
        (let sa = (if gameStep = 1
                   then s\<lparr>playerHighCards := (playerHighCards s)[iteration := int i]\<rparr>
                   else s)
         in if resultList sa ! iteration = 0
            then sa\<lparr>compareCards := (compareCards sa)[iteration := int i]\<rparr>
            else sa)
      else s)"

definition rankPair :: "nat \<Rightarrow> int list \<Rightarrow> nat \<Rightarrow> table \<Rightarrow> table" where
  "rankPair iteration valueArr i s =
     (if valueArr ! i = 2 then
        (let sb = s\<lparr>plyrPairs := (plyrPairs s)[iteration := plyrPairs s ! iteration @ [int i]]\<rparr>
         in if resultList sb ! iteration < 1
            then sb\<lparr>resultList := (resultList sb)[iteration := 1],
                    compareCards := (compareCards sb)[iteration := lastIndexOf valueArr 2]\<rparr>
            else sb)
      else s)"

definition rankThree :: "nat \<Rightarrow> int list \<Rightarrow> nat \<Rightarrow> table \<Rightarrow> table" where
  "rankThree iteration valueArr i s =
     (if valueArr ! i = 3 \<and> resultList s ! iteration < 3
      then s\<lparr>resultList := (resultList s)[iteration := 3],
             compareCards := (compareCards s)[iteration := lastIndexOf valueArr 3]\<rparr>
      else s)"

definition rankFour :: "nat \<Rightarrow> int list \<Rightarrow> nat \<Rightarrow> table \<Rightarrow> table" where
  "rankFour iteration valueArr i s =
     (if valueArr ! i = 4 \<and> resultList s ! iteration < 7
      then s\<lparr>resultList := (resultList s)[iteration := 7],
             compareCards := (compareCards s)[iteration := lastIndexOf valueArr 4]\<rparr>
      else s)"

definition rankStep :: "nat \<Rightarrow> nat \<Rightarrow> int list \<Rightarrow> nat \<Rightarrow> table \<Rightarrow> table" where
  "rankStep iteration gameStep valueArr i s =
     rankFour iteration valueArr i
       (rankThree iteration valueArr i
          (rankPair iteration valueArr i
             (rankPresent iteration gameStep valueArr i s)))"

definition rankLoop :: "nat \<Rightarrow> nat \<Rightarrow> int list \<Rightarrow> table \<Rightarrow> table" where
  "rankLoop iteration gameStep valueArr s =
     fold (rankStep iteration gameStep valueArr) [0 ..< length valueArr] s"

text \<open>Lines 395 to 400: two pairs.\<close>

definition twoPairStep :: "nat \<Rightarrow> int list \<Rightarrow> table \<Rightarrow> table" where
  "twoPairStep iteration valueArr s =
     (if getOccurrence valueArr 2 > 1 \<and> resultList s ! iteration < 2
      then s\<lparr>resultList := (resultList s)[iteration := 2],
             compareCards := (compareCards s)[iteration := lastIndexOf valueArr 2]\<rparr>
      else s)"

subsection \<open>The evaluator: straights\<close>

text \<open>
  \<open>connected sortedIdx n i\<close>: the entries \<open>i+1 .. i+n\<close> of the sorted index array exist and
  continue entry \<open>i\<close> without a gap (lines 406 to 415). The array keeps its duplicates.
\<close>

definition connected :: "int list \<Rightarrow> nat \<Rightarrow> nat \<Rightarrow> bool" where
  "connected sortedIdx n i =
     list_all (\<lambda>j. nth_opt sortedIdx (i + j) = Some (sortedIdx ! i + int j)) [1 ..< Suc n]"

text \<open>
  One round of the loop of lines 405 to 426 where it finds five connected entries: the
  highest straight card of the seat is raised, and a result below 4 becomes 4; the top
  index is stored in \<open>communityCards[iteration]\<close>.
\<close>

definition raiseStraightHigh :: "nat \<Rightarrow> int \<Rightarrow> table \<Rightarrow> table" where
  "raiseStraightHigh iteration topIdx s =
     (if topIdx > playerStraightHighCard s ! iteration
      then s\<lparr>playerStraightHighCard := (playerStraightHighCard s)[iteration := topIdx]\<rparr>
      else s)"

definition recordStraight :: "nat \<Rightarrow> int \<Rightarrow> table \<Rightarrow> table" where
  "recordStraight iteration topIdx s =
     (if resultList s ! iteration < 4
      then s\<lparr>resultList := (resultList s)[iteration := 4],
             communityCards := jsSet (communityCards s) iteration (NumSlot topIdx)\<rparr>
      else s)"

definition straightStep :: "nat \<Rightarrow> int list \<Rightarrow> nat \<Rightarrow> table \<Rightarrow> table" where
  "straightStep iteration sortedIdx i s =
     (if connected sortedIdx 4 i
      then recordStraight iteration (sortedIdx ! (i + 4))
             (raiseStraightHigh iteration (sortedIdx ! (i + 4)) s)
      else s)"

definition straightLoop :: "nat \<Rightarrow> int list \<Rightarrow> table \<Rightarrow> table" where
  "straightLoop iteration sortedIdx s = fold (straightStep iteration sortedIdx) [0 ..< length sortedIdx] s"

text \<open>
  The second pass, lines 427 to 433, runs \<open>i\<close> from \<open>-1\<close> to \<open>12\<close> over \<open>valueArr\<close>; an
  entry outside \<open>0..12\<close> is \<open>undefined\<close> and fails the test \<open>> 0\<close>. A match sets the result
  to 4 without a comparison and stores the count \<open>valueArr[i + 4]\<close> in
  \<open>communityCards[iteration]\<close>.
\<close>

definition positiveAt :: "int list \<Rightarrow> int \<Rightarrow> bool" where
  "positiveAt valueArr k = (0 \<le> k \<and> nat k < length valueArr \<and> valueArr ! nat k > 0)"

definition fiveInARow :: "int list \<Rightarrow> int \<Rightarrow> bool" where
  "fiveInARow valueArr i =
     (positiveAt valueArr i \<and> positiveAt valueArr (i + 1) \<and> positiveAt valueArr (i + 2)
      \<and> positiveAt valueArr (i + 3) \<and> positiveAt valueArr (i + 4))"

definition fixStep :: "nat \<Rightarrow> int list \<Rightarrow> int \<Rightarrow> table \<Rightarrow> table" where
  "fixStep iteration valueArr i s =
     (if fiveInARow valueArr i
      then s\<lparr>resultList := (resultList s)[iteration := 4],
             communityCards := jsSet (communityCards s) iteration (NumSlot (valueArr ! nat (i + 4)))\<rparr>
      else s)"

definition fixLoop :: "nat \<Rightarrow> int list \<Rightarrow> table \<Rightarrow> table" where
  "fixLoop iteration valueArr s = fold (fixStep iteration valueArr) [- 1 .. 12] s"

definition straightFound :: "int list \<Rightarrow> int list \<Rightarrow> bool" where
  "straightFound sortedIdx valueArr =
     (list_ex (connected sortedIdx 4) [0 ..< length sortedIdx] \<or> list_ex (fiveInARow valueArr) [- 1 .. 12])"

subsection \<open>The evaluator: flush, full house, straight flush, royal flush\<close>

text \<open>\<open>raiseResult found iteration r\<close>: when the hand was found, a lower result becomes \<open>r\<close>.\<close>

definition raiseResult :: "bool \<Rightarrow> nat \<Rightarrow> int \<Rightarrow> table \<Rightarrow> table" where
  "raiseResult found iteration r s =
     (if found \<and> resultList s ! iteration < r
      then s\<lparr>resultList := (resultList s)[iteration := r]\<rparr>
      else s)"

definition flushFound :: "int list \<Rightarrow> bool" where
  "flushFound suitedArr = (indexOf suitedArr 5 \<noteq> - 1)"

definition fullHouseStep :: "nat \<Rightarrow> int list \<Rightarrow> table \<Rightarrow> table" where
  "fullHouseStep iteration valueArr s =
     (if indexOf valueArr 3 \<noteq> - 1 \<and> indexOf valueArr 2 \<noteq> - 1 \<and> resultList s ! iteration < 6
      then s\<lparr>resultList := (resultList s)[iteration := 6],
             communityCards := jsSet (communityCards s) iteration (NumSlot (lastIndexOf valueArr 3))\<rparr>
      else s)"

definition royalRanks :: "int list \<Rightarrow> bool" where
  "royalRanks valueArr =
     (valueArr ! 8 > 0 \<and> valueArr ! 9 > 0 \<and> valueArr ! 10 > 0 \<and> valueArr ! 11 > 0 \<and> valueArr ! 12 > 0)"

text \<open>Lines 461 to 466: the seats that are not active get \<open>-1\<close>.\<close>

definition markSeat :: "nat \<Rightarrow> table \<Rightarrow> table" where
  "markSeat i s =
     (if indexOf (activePlayers s) i = - 1
      then s\<lparr>resultList := (resultList s)[i := - 1], compareCards := (compareCards s)[i := - 1]\<rparr>
      else s)"

definition markInactive :: "table \<Rightarrow> table" where
  "markInactive s = fold markSeat [0 ..< 4] s"

definition highCardStep :: "nat \<Rightarrow> int list \<Rightarrow> table \<Rightarrow> table" where
  "highCardStep iteration valueArr s =
     (if resultList s ! iteration = 0
      then s\<lparr>compareCards := (compareCards s)[iteration := lastIndexOf valueArr 1]\<rparr>
      else s)"

text \<open>Lines 484 to 507: the hole cards of the seat, kept at the first step.\<close>

definition holeRanks :: "int list \<Rightarrow> int list" where
  "holeRanks valueArr =
     (let tempObj = concat (map (\<lambda>i. if valueArr ! i \<noteq> 0
                                      then (if valueArr ! i > 1 then [int i, int i] else [int i])
                                      else []) [0 ..< length valueArr])
      in case tempObj of
           a # b # rest \<Rightarrow> (if b < a then b # a # rest else tempObj)
         | _ \<Rightarrow> tempObj)"

definition keepHoleRanks :: "nat \<Rightarrow> int list \<Rightarrow> table \<Rightarrow> table" where
  "keepHoleRanks gameStep valueArr s =
     (if gameStep = 1 then s\<lparr>bestHoleCards := bestHoleCards s @ [holeRanks valueArr]\<rparr> else s)"

text \<open>
  The scoring part of \<open>evaluateHand\<close>, lines 356 to 507, for cards that could all be
  read.
\<close>

definition scoreHand :: "nat \<Rightarrow> nat \<Rightarrow> slot list \<Rightarrow> table \<Rightarrow> table" where
  "scoreHand iteration gameStep cardsArr s =
     (let valueArr = valueArrOf cardsArr;
          sortedIdx = sort (cardIndexesOf cardsArr);
          straight = straightFound sortedIdx valueArr;
          flush = flushFound (suitedArrOf cardsArr);
          s = rankLoop iteration gameStep valueArr s;
          s = twoPairStep iteration valueArr s;
          s = straightLoop iteration sortedIdx s;
          s = fixLoop iteration valueArr s;
          s = raiseResult straight iteration 4 s;
          s = raiseResult flush iteration 5 s;
          s = fullHouseStep iteration valueArr s;
          s = raiseResult (flush \<and> straight) iteration 8 s;
          s = raiseResult (royalRanks valueArr \<and> flush) iteration 9 s;
          s = markInactive s;
          s = highCardStep iteration valueArr s
      in keepHoleRanks gameStep valueArr s)"

subsection \<open>The showdown\<close>

text \<open>
  Lines 520 to 526 change the local \<open>valueArr\<close> only: while more than two ranks are
  paired, the lowest pair is overwritten with \<open>-2\<close>.
\<close>

definition dropLowestPairs :: "int list \<Rightarrow> int list" where
  "dropLowestPairs valueArr =
     fold (\<lambda>i v. if v ! i = 2 \<and> getOccurrence v 2 > 2 then v[i := - 2] else v)
       [0 ..< length valueArr] valueArr"

text \<open>\<open>bestHoleCards[i][0] = -1; bestHoleCards[i][1] = -1\<close> on one entry.\<close>

definition setBoth :: "int list \<Rightarrow> int list" where
  "setBoth xs = - 1 # - 1 # drop 2 xs"

text \<open>
  Lines 532 to 540: every seat whose result is not the winning one loses its compare card
  and its hole cards. \<open>bestHoleCards[i]\<close> must exist.
\<close>

fun knockOut :: "int \<Rightarrow> nat list \<Rightarrow> table \<Rightarrow> error + table" where
  "knockOut winningHand [] s = Inr s"
| "knockOut winningHand (i # rest) s =
     (if resultList s ! i \<noteq> winningHand then
        (if i < length (bestHoleCards s)
         then knockOut winningHand rest
                (s\<lparr>compareCards := (compareCards s)[i := - 1],
                   bestHoleCards := (bestHoleCards s)[i := setBoth (bestHoleCards s ! i)]\<rparr>)
         else Inl TypeError)
      else knockOut winningHand rest s)"

text \<open>\<open>Math.max\<close> of an array that may be empty: \<open>None\<close> stands for \<open>-Infinity\<close>.\<close>

definition maxOpt :: "int list \<Rightarrow> int option" where
  "maxOpt xs = (if xs = [] then None else Some (maxList xs))"

definition hasPair :: "int list \<Rightarrow> int option \<Rightarrow> bool" where
  "hasPair ps x = (case x of None \<Rightarrow> False | Some v \<Rightarrow> indexOf ps v \<noteq> - 1)"

definition cutSeat :: "nat \<Rightarrow> table \<Rightarrow> table" where
  "cutSeat i s = s\<lparr>compareCards := (compareCards s)[i := - 1], resultList := (resultList s)[i := - 1]\<rparr>"

definition cutUnless :: "bool list \<Rightarrow> nat \<Rightarrow> table \<Rightarrow> table" where
  "cutUnless keeps i s = (if keeps ! i then s else cutSeat i s)"

text \<open>
  Lines 554 to 579, for two pairs: the seats without the highest pair are cut, then the
  seats without the second highest pair. \<open>playersWithPair\<close> is a local array of the four
  pair arrays; a cut seat's entry becomes \<open>[]\<close>.
\<close>

definition twoPairCut :: "table \<Rightarrow> table" where
  "twoPairCut s =
     (let allPairs = concat (plyrPairs s);
          highestPair = maxOpt allPairs;
          keeps = map (\<lambda>i. hasPair (plyrPairs s ! i) highestPair) [0 ..< 4];
          s1 = fold (cutUnless keeps) [0 ..< 4] s;
          playersWithPair = map (\<lambda>i. if keeps ! i then plyrPairs s ! i else []) [0 ..< 4];
          allPairs = map (\<lambda>x. if Some x = highestPair then - 1 else x) allPairs;
          secondHighestPair = maxOpt allPairs
      in fold (cutUnless (map (\<lambda>i. hasPair (playersWithPair ! i) secondHighestPair) [0 ..< 4]))
           [0 ..< 4] s1)"

text \<open>Lines 581 to 590: the higher hole card of every seat still in the comparison.\<close>

fun winnersLoop :: "table \<Rightarrow> nat list \<Rightarrow> error + int list" where
  "winnersLoop s [] = Inr []"
| "winnersLoop s (i # rest) =
     (if compareCards s ! i \<noteq> - 1 then
        (case nth_opt (playersHands s) i of
           None \<Rightarrow> Inl TypeError
         | Some h \<Rightarrow>
             (if length h < 2 then Inl TypeError
              else (case winnersLoop s rest of
                      Inl e \<Rightarrow> Inl e
                    | Inr ws \<Rightarrow>
                        Inr (max (indexOf cardHeirarchy (val (h ! 0)))
                                 (indexOf cardHeirarchy (val (h ! 1))) # ws))))
      else (case winnersLoop s rest of Inl e \<Rightarrow> Inl e | Inr ws \<Rightarrow> Inr (- 1 # ws)))"

definition gtOpt :: "int option \<Rightarrow> int \<Rightarrow> bool" where
  "gtOpt x y = (case x of None \<Rightarrow> False | Some v \<Rightarrow> v > y)"

text \<open>
  Lines 600 to 629: the loop over \<open>bestHoleCards\<close>, with the locals \<open>hiHole\<close> and
  \<open>lowHole\<close>; \<open>holeStep\<close> is one round. A seat whose hole cards lack the winning rank
  loses them; a higher second hole card, and with an equal second card a higher first
  one, makes the seat the top hand. The first component of the result is \<open>True\<close> when
  the round leaves through \<open>youWin("split")\<close>: the second card equals \<open>hiHole\<close>, the first
  equals \<open>lowHole\<close>, and \<open>bestHoleCards[0][0]\<close> is not \<open>-1\<close>.
\<close>

definition dropHoles :: "int \<Rightarrow> nat \<Rightarrow> table \<Rightarrow> table" where
  "dropHoles multiWinMax i s =
     (if indexOf (bestHoleCards s ! i) multiWinMax = - 1
      then s\<lparr>bestHoleCards := (bestHoleCards s)[i := setBoth (bestHoleCards s ! i)]\<rparr>
      else s)"

definition setTop :: "bool \<Rightarrow> nat \<Rightarrow> table \<Rightarrow> table" where
  "setTop c i s = (if c then s\<lparr>topHand := Some (int i)\<rparr> else s)"

definition holeStep :: "int \<Rightarrow> nat \<Rightarrow> int \<Rightarrow> int \<Rightarrow> table \<Rightarrow> bool \<times> int \<times> int \<times> table" where
  "holeStep multiWinMax i hiHole lowHole s =
     (let s1 = dropHoles multiWinMax i s;
          e0 = nth_opt (bestHoleCards s1 ! i) 0;
          e1 = nth_opt (bestHoleCards s1 ! i) 1;
          higher = gtOpt e1 hiHole;
          hiHole = (if higher then the e1 else hiHole);
          equalHigh = (e1 = Some hiHole);
          lower = (equalHigh \<and> gtOpt e0 lowHole);
          lowHole = (if lower then the e0 else lowHole);
          s3 = setTop lower i (setTop higher i s1)
      in (equalHigh \<and> e0 = Some lowHole \<and> nth_opt (bestHoleCards s3 ! 0) 0 \<noteq> Some (- 1),
          hiHole, lowHole, s3))"

fun holeLoop :: "int \<Rightarrow> nat list \<Rightarrow> int \<Rightarrow> int \<Rightarrow> table \<Rightarrow> bool \<times> table" where
  "holeLoop multiWinMax [] hiHole lowHole s = (False, s)"
| "holeLoop multiWinMax (i # rest) hiHole lowHole s =
     (case holeStep multiWinMax i hiHole lowHole s of
        (True, hi, lo, t) \<Rightarrow> (True, t)
      | (False, hi, lo, t) \<Rightarrow> holeLoop multiWinMax rest hi lo t)"

text \<open>The split exit: \<open>youWin("split"); showPlayersCards(); return false\<close>.\<close>

definition splitExit :: "table \<Rightarrow> error + bool \<times> table" where
  "splitExit s = (case showPlayersCards (youWin Split s) of Inl e \<Rightarrow> Inl e | Inr t \<Rightarrow> Inr (True, t))"

text \<open>
  Lines 544 to 639, entered when more than one seat holds the winning compare card:
  the straights (lines 545 to 553), the two pairs, and the hole cards (lines 581 to 633).
\<close>

definition straightTop :: "int \<Rightarrow> table \<Rightarrow> table" where
  "straightTop winningHand s =
     (if winningHand = 4 then s\<lparr>topHand := Some (maxList (playerStraightHighCard s))\<rparr> else s)"

definition straightSplit :: "int \<Rightarrow> table \<Rightarrow> bool" where
  "straightSplit winningHand s =
     (winningHand = 4
      \<and> getOccurrence (playerStraightHighCard s) (maxList (playerStraightHighCard s)) > 1
      \<and> playerStraightHighCard s ! 0 = maxList (playerStraightHighCard s))"

definition decideHoles :: "int list \<Rightarrow> table \<Rightarrow> error + bool \<times> table" where
  "decideHoles winnersList s =
     (let multiWinMax = maxList winnersList;
          s3 = s\<lparr>topHand := Some (indexOf winnersList multiWinMax)\<rparr>
      in if getOccurrence winnersList multiWinMax > 1
         then (case holeLoop multiWinMax [0 ..< length (bestHoleCards s3)] 0 0 s3 of
                 (True, t) \<Rightarrow> splitExit t
               | (False, t) \<Rightarrow> Inr (False, t))
         else Inr (False, s3))"

definition holeCompare :: "table \<Rightarrow> error + bool \<times> table" where
  "holeCompare s =
     (case winnersLoop s [0 ..< 4] of
        Inl e \<Rightarrow> Inl e
      | Inr winnersList \<Rightarrow> decideHoles winnersList s)"

definition tieBreak :: "int \<Rightarrow> table \<Rightarrow> error + bool \<times> table" where
  "tieBreak winningHand s =
     (let s1 = straightTop winningHand s
      in if straightSplit winningHand s1 then splitExit s1
         else holeCompare (if winningHand = 2 then twoPairCut s1 else s1))"

text \<open>
  Lines 527 to 640. The result is \<open>(True, s)\<close> when \<open>evaluateHand\<close> has returned through
  a split, and \<open>(False, s)\<close> when it goes on.
\<close>

definition compareTop :: "table \<Rightarrow> table" where
  "compareTop s = s\<lparr>topHand := Some (indexOf (compareCards s) (maxList (compareCards s)))\<rparr>"

definition showdown :: "table \<Rightarrow> error + bool \<times> table" where
  "showdown s =
     (let winningHand = maxList (resultList s)
      in if getOccurrence (resultList s) winningHand = 1
         then Inr (False, s\<lparr>topHand := Some (indexOf (resultList s) winningHand)\<rparr>)
         else (case knockOut winningHand [0 ..< length (resultList s)] s of
                 Inl e \<Rightarrow> Inl e
               | Inr s1 \<Rightarrow>
                   (if getOccurrence (compareCards s1) (maxList (compareCards s1)) > 1
                    then tieBreak winningHand (compareTop s1)
                    else Inr (False, compareTop s1))))"

subsection \<open>The betting of the other seats and the end of the hand\<close>

definition setStatus :: "nat \<Rightarrow> status \<Rightarrow> table \<Rightarrow> table" where
  "setStatus i st s = s\<lparr>seatStatus := (seatStatus s)[i := st]\<rparr>"

text \<open>
  When some seat is betting, every checking seat is removed and marked as folded (lines
  677 to 683 and 732 to 738).
\<close>

definition foldSeat :: "nat \<Rightarrow> table \<Rightarrow> table" where
  "foldSeat i s = setStatus i Folded (removeActivePlyr i s)"

definition foldCheckers :: "table \<Rightarrow> table" where
  "foldCheckers s =
     (if Betting \<in> set (seatStatus s)
      then fold foldSeat (filter (\<lambda>i. seatStatus s ! i = Checking) [0 ..< length (seatStatus s)]) s
      else s)"

text \<open>The local flags the betting reads.\<close>

record flags =
  connectedTwo :: bool
  connectedThree :: bool
  highCardCount :: nat
  firstRoundSuited :: bool
  threeSuited :: bool
  fourSuited :: bool
  hasAce :: bool

definition flagsOf :: "int list \<Rightarrow> int list \<Rightarrow> int list \<Rightarrow> flags" where
  "flagsOf sortedIdx valueArr suitedArr =
     \<lparr> connectedTwo = list_ex (connected sortedIdx 1) [0 ..< length sortedIdx],
       connectedThree = list_ex (connected sortedIdx 2) [0 ..< length sortedIdx],
       highCardCount = length (filter (\<lambda>i. i > 7 \<and> valueArr ! i > 0) [0 ..< length valueArr]),
       firstRoundSuited = list_ex (\<lambda>c. c > 1) suitedArr,
       threeSuited = list_ex (\<lambda>c. c > 2) suitedArr,
       fourSuited = list_ex (\<lambda>c. c > 3) suitedArr,
       hasAce = (valueArr ! 12 > 0) \<rparr>"

text \<open>
  Lines 667 to 784. \<open>lastIteration\<close> is the last active seat at the start of the call
  (\<open>None\<close> when no seat is active). In the source \<open>connectedFour > 1\<close> compares a boolean
  with 1 and never holds.
\<close>

definition betStep1 :: "nat \<Rightarrow> nat \<Rightarrow> flags \<Rightarrow> table \<Rightarrow> table" where
  "betStep1 iteration gameStep f s =
     (if gameStep = 1 \<and> iteration \<noteq> 0
      then setStatus iteration
             (if resultList s ! iteration \<ge> 1 \<or> connectedTwo f \<or> highCardCount f > 0
                 \<or> firstRoundSuited f \<or> hasAce f
              then Betting else Checking) s
      else s)"

definition doubleStep :: "nat \<Rightarrow> table \<Rightarrow> table" where
  "doubleStep iteration s =
     (if resultList s ! iteration \<ge> 3 \<and> iteration \<noteq> 0 then s\<lparr>dblBets := True\<rparr> else s)"

definition betStep2 :: "nat \<Rightarrow> nat \<Rightarrow> flags \<Rightarrow> table \<Rightarrow> table" where
  "betStep2 iteration gameStep f s =
     (if gameStep = 2 \<and> iteration \<noteq> 0
      then setStatus iteration
             (if connectedThree f \<or> highCardCount f > 1 \<or> firstRoundSuited f
                 \<or> resultList s ! iteration \<ge> 1
              then Betting else Checking) s
      else s)"

definition betStep3 :: "nat \<Rightarrow> nat \<Rightarrow> flags \<Rightarrow> table \<Rightarrow> table" where
  "betStep3 iteration gameStep f s =
     (if gameStep = 3 \<and> iteration \<noteq> 0
      then setStatus iteration
             (if connectedThree f \<or> threeSuited f \<or> fourSuited f \<or> resultList s ! iteration \<ge> 1
              then Betting else Checking) s
      else s)"

definition maxBetStep :: "nat \<Rightarrow> nat \<Rightarrow> flags \<Rightarrow> table \<Rightarrow> table" where
  "maxBetStep iteration gameStep f s =
     (if gameStep = 3 \<and> iteration \<noteq> 0 \<and> maxBetHit s \<and> \<not> connectedThree f
         \<and> resultList s ! iteration \<le> 2 \<and> \<not> fourSuited f
      then setStatus iteration Checking s
      else s)"

text \<open>The end of the hand, lines 762 to 783.\<close>

definition endOfHand :: "table \<Rightarrow> error + table" where
  "endOfHand s =
     (case (if topHand s = Some 0 then Inr (youWin Default s) else youLose (topHand s) s) of
        Inl e \<Rightarrow> Inl e
      | Inr t \<Rightarrow> showPlayersCards t)"

definition finish :: "nat \<Rightarrow> nat \<Rightarrow> nat option \<Rightarrow> flags \<Rightarrow> table \<Rightarrow> error + table" where
  "finish iteration gameStep lastIteration f s =
     (if indexOf (activePlayers s) iteration = - 1 then Inr s
      else if gameStep = 1 \<and> iteration \<noteq> 0 \<and> lastIteration = Some iteration
      then Inr (foldCheckers (betStep1 iteration gameStep f s))
      else
        (let s = betStep1 iteration gameStep f s;
             s = doubleStep iteration s;
             s = betStep2 iteration gameStep f s;
             s = betStep3 iteration gameStep f s;
             s = maxBetStep iteration gameStep f s
         in if (gameStep = 2 \<or> gameStep = 3) \<and> lastIteration = Some iteration \<and> iteration \<noteq> 0
            then Inr (foldCheckers s)
            else if gameStep = 4 \<and> lastIteration = Some iteration
            then endOfHand s
            else Inr s))"

subsection \<open>evaluateHand\<close>

text \<open>
  \<open>evaluateHand(iteration, gameStep)\<close>. Reading the cards throws when the hand of the seat
  or one of the community cards the step needs is \<open>undefined\<close>; this happens before any
  global is written. The showdown runs at step 4 for the last active seat.
\<close>

definition lastActive :: "table \<Rightarrow> nat option" where
  "lastActive s = (if activePlayers s = [] then None else Some (last (activePlayers s)))"

text \<open>The flags of the call; at the showdown they see \<open>valueArr\<close> without its lowest pairs.\<close>

definition roundFlags :: "bool \<Rightarrow> slot list \<Rightarrow> flags" where
  "roundFlags atShowdown cardsArr =
     flagsOf (sort (cardIndexesOf cardsArr))
       (if atShowdown then dropLowestPairs (valueArrOf cardsArr) else valueArrOf cardsArr)
       (suitedArrOf cardsArr)"

definition evaluateHand :: "nat \<Rightarrow> nat \<Rightarrow> table \<Rightarrow> error + table" where
  "evaluateHand iteration gameStep s =
     (let cardsArr = cardsArrOf s iteration gameStep;
          lastIteration = lastActive s
      in if iteration \<ge> length (playersHands s) \<or> Undefined \<in> set cardsArr then Inl TypeError
         else if gameStep = 4 \<and> lastIteration = Some iteration
         then (case showdown (scoreHand iteration gameStep cardsArr s) of
                 Inl e \<Rightarrow> Inl e
               | Inr (True, t) \<Rightarrow> Inr t
               | Inr (False, t) \<Rightarrow>
                   finish iteration gameStep lastIteration (roundFlags True cardsArr) t)
         else finish iteration gameStep lastIteration (roundFlags False cardsArr)
                (scoreHand iteration gameStep cardsArr s))"

subsection \<open>Drawing cards\<close>

text \<open>
  The deck is the array \<open>activeCards\<close> of card objects, of which the code reads the
  \<open>title\<close> only; the array \<open>cards\<close> it is parsed from is defined outside the files at
  hand, so the deck is a parameter: the list of the titles, the same for \<open>activeCards\<close>
  and \<open>cards\<close>. A title is \<open>value-suit\<close>, and the card object is cut from it with
  \<open>indexOf("-")\<close> and \<open>substring\<close>.
\<close>

definition cardOfTitle :: "string \<Rightarrow> card" where
  "cardOfTitle title =
     (let d = indexOf title (CHR ''-'')
      in \<lparr> suit = drop (nat (d + 1)) title, val = take (nat d) title \<rparr>)"

text \<open>Lines 127 to 132: a fresh card joins the community cards and the used cards.\<close>

definition pushCommunity :: "string \<Rightarrow> table \<Rightarrow> table" where
  "pushCommunity title s =
     s\<lparr>communityCards := communityCards s @ [CardSlot (cardOfTitle title)],
       usedCardsArr := usedCardsArr s @ [title]\<rparr>"

text \<open>
  \<open>buildCommunityCards(howMany, step)\<close>. The values of \<open>generate(activeCards)\<close>, that is
  of \<open>Math.floor(Math.random() * activeCards.length)\<close>, are the numbers \<open>rnd k\<close>,
  \<open>rnd (k + 1)\<close>, ... of a sequence; an index outside the deck reads \<open>undefined\<close> and its
  \<open>.title\<close> throws. The loop has no bound, so the function is partial: \<open>None\<close> means that
  it never returns. With the table it returns the position in the sequence it has reached.
\<close>

partial_function (option) buildCommunityCards ::
  "string list \<Rightarrow> (nat \<Rightarrow> nat) \<Rightarrow> nat \<Rightarrow> nat \<Rightarrow> table \<Rightarrow> (error + nat \<times> table) option" where
  "buildCommunityCards deck rnd howMany k s =
     (if length (communityCards s) < howMany then
        (if rnd k < length deck then
           (if indexOf (usedCardsArr s) (deck ! rnd k) = - 1
            then buildCommunityCards deck rnd howMany (Suc k) (pushCommunity (deck ! rnd k) s)
            else buildCommunityCards deck rnd howMany (Suc k) s)
         else Some (Inl TypeError))
      else Some (Inr (k, s)))"

text \<open>
  The draw loop of \<open>generatePlayer\<close>, lines 955 to 966, which collects the titles of two
  fresh cards in \<open>playersCards\<close>.
\<close>

partial_function (option) drawPlayersCards ::
  "string list \<Rightarrow> (nat \<Rightarrow> nat) \<Rightarrow> nat \<Rightarrow> string list \<Rightarrow> table \<Rightarrow> (error + nat \<times> string list \<times> table) option" where
  "drawPlayersCards deck rnd k playersCards s =
     (if length playersCards < 2 then
        (if rnd k < length deck then
           (if indexOf (usedCardsArr s) (deck ! rnd k) = - 1
            then drawPlayersCards deck rnd (Suc k) (playersCards @ [deck ! rnd k])
                   (s\<lparr>usedCardsArr := usedCardsArr s @ [deck ! rnd k]\<rparr>)
            else drawPlayersCards deck rnd (Suc k) playersCards s)
         else Some (Inl TypeError))
      else Some (Inr (k, playersCards, s)))"

subsection \<open>Dealing and the rounds\<close>

text \<open>
  The globals as \<open>deal()\<close> resets them before it deals: the pot is 40 and the player has
  paid the first bet of 10. No hand has been dealt.
\<close>

definition dealReset :: "rat \<Rightarrow> table" where
  "dealReset money =
     \<lparr> playersHands = [[], [], [], []], communityCards = [], usedCardsArr = [],
       resultList = [0, 0, 0, 0], compareCards = [0, 0, 0, 0], activePlayers = [0, 1, 2, 3],
       playerHighCards = [0, 0, 0, 0], playerStraightHighCard = [0, 0, 0, 0],
       bestHoleCards = [], plyrPairs = [[], [], [], []], topHand = None,
       thePot = 40, playerMoney = money - 10, bet = 10, dblBets = False, maxBetHit = False,
       seatStatus = [Ready, Ready, Ready, Ready], messageElement = NoMessage \<rparr>"

text \<open>
  The end of \<open>generatePlayer(iteration)\<close>, after its draw loop has produced the titles
  \<open>playersCards\<close>: the hand is cut from the titles, stored and evaluated at step 1.
\<close>

definition storeHand :: "nat \<Rightarrow> string list \<Rightarrow> table \<Rightarrow> error + table" where
  "storeHand iteration playersCards s =
     evaluateHand iteration 1
       (s\<lparr>playersHands := (playersHands s)[iteration := map cardOfTitle playersCards]\<rparr>)"

definition generatePlayer ::
  "string list \<Rightarrow> (nat \<Rightarrow> nat) \<Rightarrow> nat \<Rightarrow> nat \<Rightarrow> table \<Rightarrow> (error + nat \<times> table) option" where
  "generatePlayer deck rnd iteration k s =
     (case drawPlayersCards deck rnd k [] s of
        None \<Rightarrow> None
      | Some (Inl e) \<Rightarrow> Some (Inl e)
      | Some (Inr (k1, playersCards, s1)) \<Rightarrow>
          Some (case storeHand iteration playersCards s1 of Inl e \<Rightarrow> Inl e | Inr t \<Rightarrow> Inr (k1, t)))"

text \<open>
  \<open>dealSeat\<close> is \<open>generatePlayer\<close> for draws that yield the given titles, and \<open>dealHands\<close>
  deals the seats in turn from seat \<open>i\<close> on, as the loop of \<open>deal()\<close> does.
\<close>

definition dealSeat :: "nat \<Rightarrow> string list \<Rightarrow> table \<Rightarrow> error + table" where
  "dealSeat iteration playersCards s =
     storeHand iteration playersCards (s\<lparr>usedCardsArr := usedCardsArr s @ playersCards\<rparr>)"

fun dealHands :: "nat \<Rightarrow> string list list \<Rightarrow> table \<Rightarrow> error + table" where
  "dealHands i [] s = Inr s"
| "dealHands i (h # hs) s =
     (case dealSeat i h s of Inl e \<Rightarrow> Inl e | Inr t \<Rightarrow> dealHands (Suc i) hs t)"

text \<open>
  The evaluation loop of \<open>match()\<close>, lines 1087 to 1093: every active seat not evaluated
  yet is evaluated, with the array of active seats read afresh in every round.
  The array never grows, so the rounds are those of its length at the start.
\<close>

fun evalLoop :: "nat \<Rightarrow> nat list \<Rightarrow> nat list \<Rightarrow> table \<Rightarrow> error + table" where
  "evalLoop gameStep [] evaled s = Inr s"
| "evalLoop gameStep (i # rest) evaled s =
     (if i < length (activePlayers s) then
        (let p = activePlayers s ! i
         in if p \<in> set evaled then evalLoop gameStep rest evaled s
            else (case evaluateHand p gameStep s of
                    Inl e \<Rightarrow> Inl e
                  | Inr t \<Rightarrow> evalLoop gameStep rest (evaled @ [p]) t))
      else Inr s)"

definition evalRound :: "nat \<Rightarrow> table \<Rightarrow> error + table" where
  "evalRound gameStep s = evalLoop gameStep [0 ..< length (activePlayers s)] [] s"

text \<open>
  \<open>drawCommunity howMany titles\<close> is \<open>buildCommunityCards(howMany)\<close> for draws that yield
  the given fresh titles in turn: a title is pushed while the array is shorter than
  \<open>howMany\<close>.
\<close>

fun drawCommunity :: "nat \<Rightarrow> string list \<Rightarrow> table \<Rightarrow> table" where
  "drawCommunity howMany [] s = s"
| "drawCommunity howMany (title # rest) s =
     (if length (communityCards s) < howMany
      then drawCommunity howMany rest (pushCommunity title s)
      else s)"

text \<open>
  One call of \<open>match()\<close> as far as the cards and the evaluation go (lines 1052 to 1054
  and 1078 to 1093): the step is the incremented \<open>gameIncrement\<close>, the second step empties
  the community cards and draws three, the later steps draw up to \<open>gameStep + 1\<close> and 5,
  and the active seats are evaluated. The betting around it is not part of the model: it
  depends on random decisions and on the buttons of the page. The runs stated below are
  those in which every other seat checks in \<open>deal()\<close> and in \<open>match()\<close>, which is possible
  when its hole cards are suited or connected, and which leaves the active seats, the
  results and the cards as the evaluation left them.
\<close>

definition matchRound :: "nat \<Rightarrow> string list \<Rightarrow> table \<Rightarrow> error + table" where
  "matchRound gameStep titles s =
     (let maxLength = (if gameStep < 4 then gameStep + 1 else 5);
          s1 = (if gameStep = 2 then drawCommunity 3 titles (s\<lparr>communityCards := []\<rparr>)
                else drawCommunity maxLength titles s)
      in evalRound gameStep s1)"

definition andThen :: "error + 'a \<Rightarrow> ('a \<Rightarrow> error + 'b) \<Rightarrow> error + 'b" where
  "andThen m f = (case m of Inl e \<Rightarrow> Inl e | Inr x \<Rightarrow> f x)"

text \<open>A hand from the deal to the given step: the flop, the turn and the river are the
  titles drawn at the steps 2, 3 and 4.\<close>

definition playTo :: "nat \<Rightarrow> string list list \<Rightarrow> string list \<Rightarrow> string \<Rightarrow> string \<Rightarrow> error + table" where
  "playTo lastStep hands flop turn river =
     andThen (dealHands 0 hands (dealReset 500)) (\<lambda>s.
       if lastStep < 2 then Inr s else
       andThen (matchRound 2 flop s) (\<lambda>s.
         if lastStep < 3 then Inr s else
         andThen (matchRound 3 [turn] s) (\<lambda>s.
           if lastStep < 4 then Inr s else matchRound 4 [river] s)))"

definition handHeirarchy :: "string list" where
  "handHeirarchy = [''high-card'', ''pair'', ''two-pairs'', ''three-of-a-kind'', ''straight'', ''flush'',
                    ''full-house'', ''four-of-a-kind'', ''straight-flush'', ''royal-flush'']"

subsection \<open>Auxiliary notions for the statements about the evaluator\<close>

text \<open>
  \<open>sameFrame s t\<close>: the pot, the money, the message, the bet, the active seats and the
  hands of \<open>t\<close> are those of \<open>s\<close>. \<open>scored p s\<close>: the result list has its four entries and
  the result of seat \<open>p\<close> is not negative. \<open>halved s t\<close>: \<open>t\<close> has half the pot of \<open>s\<close>, the
  player has received that half, and the message announces it.
\<close>

definition sameFrame :: "table \<Rightarrow> table \<Rightarrow> bool" where
  "sameFrame s t =
     (thePot t = thePot s \<and> playerMoney t = playerMoney s \<and> messageElement t = messageElement s
      \<and> bet t = bet s \<and> activePlayers t = activePlayers s \<and> playersHands t = playersHands s)"

definition scored :: "nat \<Rightarrow> table \<Rightarrow> bool" where
  "scored p s = (length (resultList s) = 4 \<and> 0 \<le> resultList s ! p)"

definition halved :: "table \<Rightarrow> table \<Rightarrow> bool" where
  "halved s t =
     (thePot t = thePot s / 2 \<and> playerMoney t = playerMoney s + thePot s / 2
      \<and> messageElement t = SplitWon (thePot s / 2))"

text \<open>The titles that are in the deck and not among the used cards.\<close>

definition fresh :: "string list \<Rightarrow> table \<Rightarrow> string set" where
  "fresh deck s = set deck - set (usedCardsArr s)"

subsection \<open>Hands for the statements\<close>

text \<open>
  In each of the deals below the hole cards of the seats 1 to 3 are suited or connected.
  The first deal gives seat 0 a straight on the flop.
\<close>

definition straightDeal :: "string list list" where
  "straightDeal = [[''five-spades'', ''six-diamonds''], [''king-hearts'', ''two-hearts''],
                   [''queen-clubs'', ''jack-diamonds''], [''ace-diamonds'', ''three-diamonds'']]"

definition straightFlop :: "string list" where
  "straightFlop = [''seven-clubs'', ''eight-hearts'', ''nine-spades'']"

text \<open>
  Seat 0 holds five hearts after the flop, none of them a six; the turn is the six of
  spades.
\<close>

definition flushDeal :: "string list list" where
  "flushDeal = [[''two-hearts'', ''three-hearts''], [''king-clubs'', ''queen-diamonds''],
                [''jack-clubs'', ''eight-clubs''], [''ten-spades'', ''seven-spades'']]"

definition flushFlop :: "string list" where
  "flushFlop = [''four-hearts'', ''five-hearts'', ''nine-hearts'']"

text \<open>Seat 0 holds five hearts from ten to king and the two; the turn is the ace of spades.\<close>

definition royalDeal :: "string list list" where
  "royalDeal = [[''ten-hearts'', ''jack-hearts''], [''king-clubs'', ''queen-diamonds''],
                [''jack-clubs'', ''eight-clubs''], [''ten-spades'', ''seven-spades'']]"

definition royalFlop :: "string list" where
  "royalFlop = [''queen-hearts'', ''king-hearts'', ''two-hearts'']"

text \<open>Seat 0 holds ace, two, two, three, four and five after the turn.\<close>

definition wheelPairFlop :: "string list" where
  "wheelPairFlop = [''two-clubs'', ''three-hearts'', ''four-diamonds'']"

definition wheelDeal :: "string list list" where
  "wheelDeal = [[''ace-spades'', ''two-diamonds''], [''king-clubs'', ''queen-diamonds''],
                [''jack-clubs'', ''eight-clubs''], [''ten-spades'', ''seven-spades'']]"

text \<open>
  With the board king, nine, three, four, five, seat 0 holds the wheel (ace to five) and
  seat 1 the straight from two to six.
\<close>

definition wheelSixDeal :: "string list list" where
  "wheelSixDeal = [[''ace-spades'', ''two-diamonds''], [''two-clubs'', ''six-clubs''],
                   [''jack-hearts'', ''ten-diamonds''], [''queen-hearts'', ''eight-hearts'']]"

definition wheelSixFlop :: "string list" where
  "wheelSixFlop = [''king-clubs'', ''nine-diamonds'', ''three-hearts'']"

text \<open>
  With the board two, seven, nine, jack, four, the seats 0, 1 and 2 each hold ace, king,
  jack, nine, seven, and no flush: a tie of three. \<open>tieBeforeLast\<close> is this hand just before
  the last call of \<open>evaluateHand\<close>: the river is drawn and the seats 0, 1 and 2 are
  evaluated.
\<close>

definition tieDeal :: "string list list" where
  "tieDeal = [[''ace-spades'', ''king-spades''], [''ace-hearts'', ''king-clubs''],
              [''ace-diamonds'', ''king-hearts''], [''queen-clubs'', ''three-clubs'']]"

definition tieFlop :: "string list" where
  "tieFlop = [''two-hearts'', ''seven-hearts'', ''nine-clubs'']"

definition tieBeforeLast :: "error + table" where
  "tieBeforeLast =
     andThen (playTo 3 tieDeal tieFlop ''jack-diamonds'' ''four-spades'')
       (\<lambda>s. evalLoop 4 [0, 1, 2] [] (drawCommunity 5 [''four-spades''] s))"

text \<open>A table at the river on which seat \<open>p\<close> alone is active.\<close>

definition soleTable :: "nat \<Rightarrow> table" where
  "soleTable p =
     (dealReset 500)
       \<lparr> playersHands := map (map cardOfTitle) tieDeal,
         communityCards := map (\<lambda>t. CardSlot (cardOfTitle t))
                             (tieFlop @ [''jack-diamonds'', ''four-spades'']),
         activePlayers := [p] \<rparr>"

text \<open>A deck of three cards of which the ace is used, and draws that go round the deck.\<close>

definition smallDeck :: "string list" where
  "smallDeck = [''ace-spades'', ''king-hearts'', ''queen-diamonds'']"

definition aceUsed :: table where
  "aceUsed = (dealReset 500)\<lparr>usedCardsArr := [''ace-spades'']\<rparr>"

definition roundRobin :: "nat \<Rightarrow> nat" where
  "roundRobin j = j mod 3"

section \<open>Properties of the decision engine\<close>

subsection \<open>The reward of folding\<close>

lemma calculateOuts_suits: "calculateOuts h c = outsOfSuits (suitsOf (h @ c))"
proof -
  have a: "list_ex (\<lambda>c. c = None \<or> c_suit (the c) = None) xs
        = list_ex (\<lambda>x. x = None \<or> the x = None) (suitsOf xs)" for xs
    by (induction xs) (auto simp: suitsOf_def)
  have b: "\<not> list_ex (\<lambda>c. c = None \<or> c_suit (the c) = None) xs \<Longrightarrow>
        map (\<lambda>c. toLowerCase (the (c_suit (the c)))) xs
        = map (\<lambda>x. toLowerCase (the (the x))) (suitsOf xs)" for xs
    by (induction xs) (auto simp: suitsOf_def)
  show ?thesis
    unfolding calculateOuts_def outsOfSuits_def Let_def
    using a [of "h @ c"] b [of "h @ c"] by auto
qed

lemma calculateHandStrength_throws:
  "(\<exists>e. calculateHandStrength h c = Inl e) = (None \<in> set (suitsOf (h @ c)))"
proof -
  have "(None \<in> set (suitsOf xs)) = (None \<in> set xs)" for xs
    by (induction xs) (auto simp: suitsOf_def)
  then show ?thesis
    by (auto simp: calculateHandStrength_def Let_def)
qed

lemma calculateReward_fold:
  "canFold s \<Longrightarrow>
   calculateReward s ''fold'' =
     (if None \<in> set (suitsOf (playerHand s @ stateCommunityCards s)) then Inl TypeError
      else case outsOfSuits (suitsOf (playerHand s @ stateCommunityCards s)) of
             Inl e \<Rightarrow> Inl e
           | Inr outs \<Rightarrow>
               Inr (js_mul
                 (if js_gt (remainingPlayers s) (Fin 1) \<and> js_gt (js_neg (playerBet s)) NegInf
                  then js_mul (js_neg (playerBet s)) (js_div (Fin 2) (remainingPlayers s))
                  else js_neg (playerBet s))
                 (js_min (js_mul (js_div outs (js_sub (Fin 52) (cardsDealt s))) (Fin 2)) (Fin 1))))"
proof (cases "calculateHandStrength (playerHand s) (stateCommunityCards s)")
  case (Inl e)
  then have "None \<in> set (suitsOf (playerHand s @ stateCommunityCards s))"
    using calculateHandStrength_throws by blast
  moreover have "e = TypeError" by (cases e) simp
  ultimately show ?thesis
    using Inl by (simp add: calculateReward_def)
next
  case (Inr hs)
  then have "None \<notin> set (suitsOf (playerHand s @ stateCommunityCards s))"
    using calculateHandStrength_throws [of "playerHand s" "stateCommunityCards s"] by auto
  moreover assume "canFold s"
  ultimately show ?thesis
    using Inr
    by (simp add: calculateReward_def baseReward_def getImprovementFactor_def calculateOuts_suits
        Let_def split: sum.splits)
qed

text \<open>
  Claim C7, as the code has it. When \<open>canFold\<close> holds and \<open>calculateReward\<close> returns, the
  estimate for \<open>fold\<close> is \<open>-playerBet\<close>, multiplied by \<open>2 / remainingPlayers\<close> when
  \<open>remainingPlayers > 1\<close>, and then multiplied by the improvement factor. It does not
  depend on the strength of the hand, on the pot, on the raise amount or on the stack: any
  other state with the same bet, the same number of remaining players, the same number of
  dealt cards and the same suits gets the same estimate.
\<close>

theorem fold_reward_scaled:
  assumes "canFold s" and "calculateReward s ''fold'' = Inr r"
  shows "(\<exists>f. getImprovementFactor s = Inr f \<and>
            r = js_mul
                  (if js_gt (remainingPlayers s) (Fin 1) \<and> js_gt (js_neg (playerBet s)) NegInf
                   then js_mul (js_neg (playerBet s)) (js_div (Fin 2) (remainingPlayers s))
                   else js_neg (playerBet s)) f)
       \<and> (\<forall>s'. canFold s' \<and> playerBet s' = playerBet s
               \<and> remainingPlayers s' = remainingPlayers s \<and> cardsDealt s' = cardsDealt s
               \<and> suitsOf (playerHand s' @ stateCommunityCards s')
                   = suitsOf (playerHand s @ stateCommunityCards s)
             \<longrightarrow> calculateReward s' ''fold'' = Inr r)"
proof -
  have "\<exists>f. getImprovementFactor s = Inr f \<and>
            r = js_mul
                  (if js_gt (remainingPlayers s) (Fin 1) \<and> js_gt (js_neg (playerBet s)) NegInf
                   then js_mul (js_neg (playerBet s)) (js_div (Fin 2) (remainingPlayers s))
                   else js_neg (playerBet s)) f"
    using assms
    by (auto simp: calculateReward_def baseReward_def Let_def split: sum.splits)
  moreover have "calculateReward s' ''fold'' = Inr r"
    if "canFold s'" "playerBet s' = playerBet s" "remainingPlayers s' = remainingPlayers s"
       "cardsDealt s' = cardsDealt s"
       "suitsOf (playerHand s' @ stateCommunityCards s') = suitsOf (playerHand s @ stateCommunityCards s)"
    for s'
  proof -
    have "calculateReward s' ''fold'' = calculateReward s ''fold''"
      unfolding calculateReward_fold [OF that(1)] calculateReward_fold [OF assms(1)]
      by (simp only: that)
    then show ?thesis using assms(2) by simp
  qed
  ultimately show ?thesis by blast
qed

text \<open>
  Witness for C7: in the state of \<open>getCurrentState()\<close> (bet 10, three players, four
  spades among five cards) the estimate is \<open>-10 \<times> 2/3 \<times> 18/47 = -120/47\<close>, and a state
  with a weaker hand and a pot of 5000 gets the same.
\<close>

theorem fold_reward_scaled_witness:
  "canFold getCurrentState
   \<and> calculateReward getCurrentState ''fold'' = Inr (Fin (- (120 / 47)))
   \<and> getImprovementFactor getCurrentState = Inr (Fin (18 / 47))
   \<and> calculateReward weakHand ''fold'' = Inr (Fin (- (120 / 47)))"
proof -
  have a: "canFold getCurrentState" by (simp add: getCurrentState_def)
  have b: "calculateReward getCurrentState ''fold'' = Inr (Fin (- (120 / 47)))" by code_simp
  have c: "getImprovementFactor getCurrentState = Inr (Fin (18 / 47))" by code_simp
  have d: "canFold weakHand \<and> playerBet weakHand = playerBet getCurrentState
       \<and> remainingPlayers weakHand = remainingPlayers getCurrentState
       \<and> cardsDealt weakHand = cardsDealt getCurrentState
       \<and> suitsOf (playerHand weakHand @ stateCommunityCards weakHand)
           = suitsOf (playerHand getCurrentState @ stateCommunityCards getCurrentState)"
    by (simp add: weakHand_def getCurrentState_def suitsOf_def mkCard_def)
  from fold_reward_scaled [OF a b] d have "calculateReward weakHand ''fold'' = Inr (Fin (- (120 / 47)))"
    by blast
  with a b c show ?thesis by simp
qed

text \<open>
  Counterexample to C7 as stated: in the state of \<open>getCurrentState()\<close> folding is allowed
  and the estimate is not \<open>-playerBet = -10\<close>.
\<close>

theorem fold_reward_counterexample:
  "canFold getCurrentState
   \<and> calculateReward getCurrentState ''fold'' \<noteq> Inr (js_neg (playerBet getCurrentState))"
  by code_simp

subsection \<open>Illegal actions\<close>

text \<open>
  \<open>calculateCounterfactualRewards\<close> asks \<open>isValidAction\<close> first, so its rewards object maps
  every illegal action of the action list to \<open>-Infinity\<close>.
\<close>

lemma counterfactualLoop_illegal:
  "counterfactualLoop s as rw = Inr m \<Longrightarrow> \<not> isValidAction s a \<Longrightarrow>
   m a = (if a \<in> set as then Some NegInf else rw a)"
proof (induction as arbitrary: rw)
  case Nil
  then show ?case by simp
next
  case (Cons b as)
  show ?case
  proof (cases "isValidAction s b")
    case True
    then obtain r where "calculateReward s b = Inr r"
      and "counterfactualLoop s as (rw(b \<mapsto> r)) = Inr m"
      using Cons.prems(1) by (auto split: sum.splits)
    from Cons.IH [OF this(2) Cons.prems(2)] True Cons.prems(2) show ?thesis by auto
  next
    case False
    then have "counterfactualLoop s as (rw(b \<mapsto> NegInf)) = Inr m"
      using Cons.prems(1) by simp
    from Cons.IH [OF this Cons.prems(2)] show ?thesis by auto
  qed
qed

lemma counterfactual_illegal_NegInf:
  "calculateCounterfactualRewards p s = Inr m \<Longrightarrow> a \<in> set (actions p) \<Longrightarrow> \<not> isValidAction s a
   \<Longrightarrow> m a = Some NegInf"
  using counterfactualLoop_illegal [of s "actions p" Map.empty m a]
  by (simp add: calculateCounterfactualRewards_def)

text \<open>
  Claim C8 at a failing input. The state is that of \<open>getCurrentState()\<close> with no three
  cards of one suit, so \<open>calculateOuts\<close> is 0 and the improvement factor is 0. Calling is
  not allowed, \<open>calculateReward\<close> sets the estimate to \<open>-Infinity\<close>, skips the adjustment
  for the number of players, and then multiplies by the improvement factor:
  \<open>-Infinity \<times> 0\<close> is \<open>NaN\<close>. The rewards object of \<open>calculateCounterfactualRewards\<close>
  still holds \<open>-Infinity\<close> for the action.
\<close>

theorem illegal_reward_nan:
  "\<not> canCall noDraw \<and> calculateReward noDraw ''call'' = Inr NaN
   \<and> (case calculateCounterfactualRewards newCFRPlayer noDraw of
         Inl e \<Rightarrow> False
       | Inr m \<Rightarrow> m ''call'' = Some NegInf)"
  by code_simp

subsection \<open>Selecting an action\<close>

lemma find_map_list: "find P (map f xs) = map_option f (find (\<lambda>x. P (f x)) xs)"
  by (induction xs) auto

lemma find_upt_Suc:
  "find P [0 ..< Suc n] = (if P 0 then Some 0 else map_option Suc (find (\<lambda>k. P (Suc k)) [0 ..< n]))"
proof -
  have "[0 ..< Suc n] = 0 # map Suc [0 ..< n]"
    by (simp add: upt_conv_Cons map_Suc_upt del: upt_Suc)
  then show ?thesis
    by (simp add: find_map_list del: upt_Suc)
qed

lemma selectLoop_first:
  "selectLoop strategy r acc as =
     map_option (\<lambda>k. as ! k)
       (find (\<lambda>k. js_lt (Fin r) (foldl js_add acc (take (Suc k) (map (\<lambda>a. num_of (strategy a)) as))))
          [0 ..< length as])"
proof (induction as arbitrary: acc)
  case Nil
  then show ?case by simp
next
  case (Cons a as)
  show ?case
    by (simp add: find_upt_Suc Cons.IH Let_def option.map_comp comp_def del: upt_Suc)
qed

lemma selectLoop_global_first:
  "selectLoop_global r acc str =
     map_option (\<lambda>k. fst (str ! k))
       (find (\<lambda>k. js_lt (Fin r) (foldl js_add acc (take (Suc k) (map snd str))))
          [0 ..< length str])"
proof (induction str arbitrary: acc)
  case Nil
  then show ?case by simp
next
  case (Cons a as)
  obtain x v where a: "a = (x, v)" by (cases a)
  show ?case
    by (simp add: a find_upt_Suc Cons.IH Let_def option.map_comp comp_def del: upt_Suc)
qed

text \<open>
  Claim C9, as the code has it. Both versions of \<open>selectAction\<close> walk the actions in order
  (the method: \<open>this.actions\<close>; the stand-alone function: the keys of the strategy
  object), accumulate the probability mass and return the first action whose cumulative
  mass exceeds the draw. When no cumulative mass exceeds the draw, the method of the
  class returns the last action of its action list, and the stand-alone function returns
  \<open>check\<close>, the first of its four actions.
\<close>

theorem selectAction_first_exceeding:
  "selectAction p strategy r =
     (case firstExceeding (map (\<lambda>a. num_of (strategy a)) (actions p)) r of
        Some k \<Rightarrow> Some (actions p ! k)
      | None \<Rightarrow> (if actions p = [] then None else Some (last (actions p))))
   \<and> selectAction_global entries r =
     (case firstExceeding (map snd entries) r of
        Some k \<Rightarrow> fst (entries ! k)
      | None \<Rightarrow> ''check'')"
  by (simp add: selectAction_def selectAction_global_def selectLoop_first selectLoop_global_first
      firstExceeding_def cumulativeMass_def split: option.splits)

text \<open>
  Witness for C9: with masses that sum to 999/1000, the draw 3/10 selects the second
  action in both versions, and the draw 9995/10000 selects \<open>fold\<close> in the class and
  \<open>check\<close> in the stand-alone function.
\<close>

theorem selectAction_first_exceeding_witness:
  "selectAction newCFRPlayer classStrategy (3 / 10) = Some ''call''
   \<and> selectAction newCFRPlayer classStrategy (9995 / 10000) = Some ''fold''
   \<and> selectAction_global shortStrategy (3 / 10) = ''match''
   \<and> selectAction_global shortStrategy (9995 / 10000) = ''check''"
proof -
  have a: "firstExceeding (map snd shortStrategy) (3 / 10) = Some 1" by code_simp
  have b: "firstExceeding (map snd shortStrategy) (9995 / 10000) = None" by code_simp
  have c: "firstExceeding (map (\<lambda>a. num_of (classStrategy a)) (actions newCFRPlayer)) (3 / 10) = Some 1"
    by code_simp
  have d: "firstExceeding (map (\<lambda>a. num_of (classStrategy a)) (actions newCFRPlayer)) (9995 / 10000) = None"
    by code_simp
  have e: "fst (shortStrategy ! Suc 0) = ''match''" by (simp add: shortStrategy_def)
  have f: "actions newCFRPlayer = [''check'', ''call'', ''raise'', ''allin'', ''fold'']"
    by (simp add: newCFRPlayer_def)
  show ?thesis
    using selectAction_first_exceeding [of newCFRPlayer classStrategy "3 / 10" shortStrategy]
      selectAction_first_exceeding [of newCFRPlayer classStrategy "9995 / 10000" shortStrategy]
    unfolding a b c d
    by (simp add: e f)
qed

text \<open>
  Counterexample to C9 as stated: the masses of \<open>shortStrategy\<close> sum to 999/1000, the draw
  9995/10000 is never exceeded, and the stand-alone \<open>selectAction\<close> returns \<open>check\<close>, which
  is not the last action \<open>allin\<close> of its list.
\<close>

theorem selectAction_default_counterexample:
  "firstExceeding (map snd shortStrategy) (9995 / 10000) = None
   \<and> selectAction_global shortStrategy (9995 / 10000) \<noteq> last (map fst shortStrategy)"
  by code_simp

subsection \<open>Updating the regrets\<close>

lemma fold_regretStep:
  "distinct as \<Longrightarrow>
   fold (regretStep reward cf) as rs x =
     (if x \<in> set as then Some (js_add (num_of (rs x)) (js_sub (num_of (cf x)) reward)) else rs x)"
proof (induction as arbitrary: rs)
  case Nil
  then show ?case by simp
next
  case (Cons a as)
  then show ?case by (auto simp: regretStep_def Let_def)
qed

text \<open>
  Claim C10. \<open>updateRegrets\<close> changes the regret sums only. The method of the class leaves
  \<open>strategySum\<close>, the action list and \<open>numActions\<close> as they are and adds
  \<open>counterfactualRewards[a] - reward\<close> to \<open>regretSum[a]\<close> for each action \<open>a\<close> of the list
  (its actions are distinct), leaving every other key alone; the stand-alone function
  leaves the global \<open>strategySum\<close> and the keys of \<open>regretSum\<close> as they are and adds the
  same difference to each entry.
\<close>

theorem updateRegrets_frame:
  assumes "distinct (actions p)"
  shows "strategySum (updateRegrets p actionTaken reward cf) = strategySum p
    \<and> actions (updateRegrets p actionTaken reward cf) = actions p
    \<and> numActions (updateRegrets p actionTaken reward cf) = numActions p
    \<and> (\<forall>a. regretSum (updateRegrets p actionTaken reward cf) a =
          (if a \<in> set (actions p)
           then Some (js_add (num_of (regretSum p a)) (js_sub (num_of (cf a)) reward))
           else regretSum p a))
    \<and> g_strategySum (updateRegrets_global g actionTaken reward cf) = g_strategySum g
    \<and> map fst (g_regretSum (updateRegrets_global g actionTaken reward cf)) = map fst (g_regretSum g)
    \<and> (\<forall>i < length (g_regretSum g).
          snd (g_regretSum (updateRegrets_global g actionTaken reward cf) ! i) =
            js_add (snd (g_regretSum g ! i))
              (js_sub (num_of (cf (fst (g_regretSum g ! i)))) reward))"
  using assms
  by (simp add: updateRegrets_def updateRegrets_global_def fold_regretStep comp_def case_prod_unfold)

text \<open>
  Witness for C10: the player the constructor builds, after a fold whose reward was 1
  while checking would have earned 3.
\<close>

theorem updateRegrets_frame_witness:
  "distinct (actions newCFRPlayer)
   \<and> strategySum (updateRegrets newCFRPlayer ''fold'' (Fin 1) [''check'' \<mapsto> Fin 3, ''fold'' \<mapsto> Fin 1])
       = strategySum newCFRPlayer
   \<and> regretSum (updateRegrets newCFRPlayer ''fold'' (Fin 1) [''check'' \<mapsto> Fin 3, ''fold'' \<mapsto> Fin 1]) ''check''
       = Some (Fin 2)
   \<and> regretSum (updateRegrets newCFRPlayer ''fold'' (Fin 1) [''check'' \<mapsto> Fin 3, ''fold'' \<mapsto> Fin 1]) ''call''
       = Some NaN"
proof -
  have d: "distinct (actions newCFRPlayer)" by (simp add: newCFRPlayer_def)
  show ?thesis
    using d updateRegrets_frame [OF d, of "''fold''" "Fin 1" "[''check'' \<mapsto> Fin 3, ''fold'' \<mapsto> Fin 1]"
        "\<lparr> g_regretSum = [], g_strategySum = [] \<rparr>"]
    by (simp add: newCFRPlayer_def num_of_def js_sub_def)
qed

section \<open>Properties of the evaluator and the showdown\<close>

subsection \<open>What the scoring leaves alone\<close>

lemma sameFrame_refl: "sameFrame s s"
  by (simp add: sameFrame_def)

lemma sameFrame_trans: "sameFrame s t \<Longrightarrow> sameFrame t u \<Longrightarrow> sameFrame s u"
  by (simp add: sameFrame_def)

lemma fold_sameFrame:
  "(\<And>i t. sameFrame t (f i t)) \<Longrightarrow> sameFrame s (fold f xs s)"
proof (induction xs arbitrary: s)
  case Nil
  then show ?case by (simp add: sameFrame_refl)
next
  case (Cons x xs)
  have "sameFrame s (f x s)" by (rule Cons.prems)
  moreover have "sameFrame (f x s) (fold f xs (f x s))" by (rule Cons.IH) (rule Cons.prems)
  ultimately show ?case using sameFrame_trans by simp
qed

lemma rankStep_frame: "sameFrame t (rankStep it gs v i t)"
  by (simp add: rankStep_def rankFour_def rankThree_def rankPair_def rankPresent_def
      sameFrame_def Let_def)

lemma straightStep_frame: "sameFrame t (straightStep it sx i t)"
  by (simp add: straightStep_def recordStraight_def raiseStraightHigh_def sameFrame_def)

lemma fixStep_frame: "sameFrame t (fixStep it v i t)"
  by (simp add: fixStep_def sameFrame_def)

lemma raiseResult_frame: "sameFrame t (raiseResult c it r t)"
  by (simp add: raiseResult_def sameFrame_def)

lemma markInactive_frame: "sameFrame t (markInactive t)"
  unfolding markInactive_def
  by (rule fold_sameFrame) (simp add: sameFrame_def markSeat_def)

lemma scoreHand_frame: "sameFrame s (scoreHand it gs cs s)"
proof -
  have a: "sameFrame t (rankLoop it gs v t)" for t v
    unfolding rankLoop_def by (rule fold_sameFrame) (rule rankStep_frame)
  have b: "sameFrame t (twoPairStep it v t)" for t v
    by (simp add: twoPairStep_def sameFrame_def)
  have c: "sameFrame t (straightLoop it sx t)" for t sx
    unfolding straightLoop_def by (rule fold_sameFrame) (rule straightStep_frame)
  have d: "sameFrame t (fixLoop it v t)" for t v
    unfolding fixLoop_def by (rule fold_sameFrame) (rule fixStep_frame)
  have e: "sameFrame t (fullHouseStep it v t)" for t v
    by (simp add: fullHouseStep_def sameFrame_def)
  have f: "sameFrame t (highCardStep it v t)" for t v
    by (simp add: highCardStep_def sameFrame_def)
  have k: "sameFrame t (keepHoleRanks gs v t)" for t v
    by (simp add: keepHoleRanks_def sameFrame_def)
  note tr = sameFrame_trans
  note g = raiseResult_frame
  show ?thesis
    unfolding scoreHand_def Let_def
    by (rule tr [OF _ k] tr [OF _ f] tr [OF _ markInactive_frame] tr [OF _ g] tr [OF _ e]
          tr [OF _ d] tr [OF _ c] tr [OF _ b] a)+
qed


lemma indexOf_absent: "(indexOf xs x = - 1) = (x \<notin> set xs)"
proof -
  have "(indexOf xs x < 0) = (x \<notin> set xs) \<and> - 1 \<le> indexOf xs x"
    by (induction xs) (auto simp: Let_def)
  then show ?thesis by auto
qed

lemma indexOf_singleton: "indexOf [x] x = 0"
  by simp

lemma fold_scored:
  "(\<And>i t. scored p t \<Longrightarrow> scored p (f i t)) \<Longrightarrow> scored p s \<Longrightarrow> scored p (fold f xs s)"
  by (induction xs arbitrary: s) auto

lemma rankStep_scored: "p < 4 \<Longrightarrow> scored p t \<Longrightarrow> scored p (rankStep p gs v i t)"
  by (simp add: rankStep_def rankFour_def rankThree_def rankPair_def rankPresent_def
      scored_def Let_def)

lemma straightStep_scored: "p < 4 \<Longrightarrow> scored p t \<Longrightarrow> scored p (straightStep p sx i t)"
  by (simp add: straightStep_def recordStraight_def raiseStraightHigh_def scored_def)

lemma fixStep_scored: "p < 4 \<Longrightarrow> scored p t \<Longrightarrow> scored p (fixStep p v i t)"
  by (simp add: fixStep_def scored_def)

lemma raiseResult_scored: "p < 4 \<Longrightarrow> 0 \<le> r \<Longrightarrow> scored p t \<Longrightarrow> scored p (raiseResult c p r t)"
  by (simp add: raiseResult_def scored_def)

lemma markSeat_scored:
  "p \<in> set (activePlayers t) \<Longrightarrow> scored p t \<Longrightarrow>
   scored p (markSeat j t) \<and> activePlayers (markSeat j t) = activePlayers t"
  by (cases "j = p") (auto simp: markSeat_def scored_def indexOf_absent)

lemma markInactive_scored:
  "p \<in> set (activePlayers t) \<Longrightarrow> scored p t \<Longrightarrow> scored p (markInactive t)"
proof -
  have "p \<in> set (activePlayers t) \<Longrightarrow> scored p t \<Longrightarrow>
        scored p (fold markSeat xs t)" for xs
  proof (induction xs arbitrary: t)
    case Nil
    then show ?case by simp
  next
    case (Cons j xs)
    from markSeat_scored [OF Cons.prems, of j] Cons.prems(1)
    show ?case by (simp add: Cons.IH)
  qed
  then show "p \<in> set (activePlayers t) \<Longrightarrow> scored p t \<Longrightarrow> scored p (markInactive t)"
    by (simp add: markInactive_def)
qed

lemma markInactive_others:
  assumes "length (resultList t) = 4" and "j < 4" and "j \<notin> set (activePlayers t)"
  shows "resultList (markInactive t) ! j = - 1"
proof -
  have act: "activePlayers (fold markSeat xs u) = activePlayers u" for xs u
    by (induction xs arbitrary: u) (auto simp: markSeat_def)
  have len: "length (resultList (fold markSeat xs u)) = length (resultList u)" for xs u
    by (induction xs arbitrary: u) (auto simp: markSeat_def)
  have keep: "j \<notin> set (activePlayers u) \<Longrightarrow> j < length (resultList u) \<Longrightarrow> resultList u ! j = - 1 \<Longrightarrow>
        resultList (fold markSeat xs u) ! j = - 1" for xs u
  proof (induction xs arbitrary: u)
    case Nil
    then show ?case by simp
  next
    case (Cons i xs)
    have "resultList (markSeat i u) ! j = - 1"
      using Cons.prems by (cases "i = j") (auto simp: markSeat_def)
    moreover have "activePlayers (markSeat i u) = activePlayers u"
      and "length (resultList (markSeat i u)) = length (resultList u)"
      by (auto simp: markSeat_def)
    ultimately show ?case using Cons.prems Cons.IH [of "markSeat i u"] by simp
  qed
  have hit: "j \<in> set xs \<Longrightarrow> j \<notin> set (activePlayers u) \<Longrightarrow> j < length (resultList u) \<Longrightarrow>
        resultList (fold markSeat xs u) ! j = - 1" for xs u
  proof (induction xs arbitrary: u)
    case Nil
    then show ?case by simp
  next
    case (Cons i xs)
    show ?case
    proof (cases "i = j")
      case True
      have "resultList (markSeat j u) ! j = - 1"
        using Cons.prems by (simp add: markSeat_def indexOf_absent)
      moreover have "activePlayers (markSeat j u) = activePlayers u"
        and "length (resultList (markSeat j u)) = length (resultList u)"
        by (auto simp: markSeat_def)
      ultimately show ?thesis
        using True Cons.prems keep [of "markSeat j u" xs] by simp
    next
      case False
      have "activePlayers (markSeat i u) = activePlayers u"
        and "length (resultList (markSeat i u)) = length (resultList u)"
        by (auto simp: markSeat_def)
      then show ?thesis
        using False Cons.prems Cons.IH [of "markSeat i u"] by simp
    qed
  qed
  have "j \<in> set [0 ..< 4]" using assms(2) by simp
  then show ?thesis
    unfolding markInactive_def using assms hit [of "[0 ..< 4]" t] by simp
qed

lemma markInactive_length: "length (resultList (markInactive t)) = length (resultList t)"
proof -
  have "length (resultList (fold markSeat xs u)) = length (resultList u)" for xs u
    by (induction xs arbitrary: u) (auto simp: markSeat_def)
  then show ?thesis by (simp add: markInactive_def)
qed

text \<open>The result list after scoring, when seat p alone is active.\<close>

lemma scoreHand_sole:
  assumes p: "p < 4" and act: "activePlayers s = [p]" and sc: "scored p s"
  shows "length (resultList (scoreHand p gs cs s)) = 4
       \<and> 0 \<le> resultList (scoreHand p gs cs s) ! p
       \<and> (\<forall>j < 4. j \<noteq> p \<longrightarrow> resultList (scoreHand p gs cs s) ! j = - 1)"
proof -
  define v where "v = valueArrOf cs"
  define sx where "sx = sort (cardIndexesOf cs)"
  define st where "st = straightFound sx v"
  define fl where "fl = flushFound (suitedArrOf cs)"
  define u where "u = raiseResult (royalRanks v \<and> fl) p 9
     (raiseResult (fl \<and> st) p 8 (fullHouseStep p v (raiseResult fl p 5 (raiseResult st p 4
       (fixLoop p v (straightLoop p sx (twoPairStep p v (rankLoop p gs v s))))))))"
  have 1: "scored p (rankLoop p gs v s)"
    unfolding rankLoop_def using fold_scored [of p "rankStep p gs v"] rankStep_scored [OF p] sc by blast
  have 2: "scored p (twoPairStep p v (rankLoop p gs v s))"
    using 1 p by (simp add: twoPairStep_def scored_def)
  have 3: "scored p (straightLoop p sx (twoPairStep p v (rankLoop p gs v s)))"
    unfolding straightLoop_def
    using fold_scored [of p "straightStep p sx"] straightStep_scored [OF p] 2 by blast
  have 4: "scored p (fixLoop p v (straightLoop p sx (twoPairStep p v (rankLoop p gs v s))))"
    unfolding fixLoop_def
    using fold_scored [of p "fixStep p v"] fixStep_scored [OF p] 3 by blast
  have fh: "scored p t \<Longrightarrow> scored p (fullHouseStep p v t)" for t
    using p by (simp add: fullHouseStep_def scored_def)
  have 5: "scored p u"
    unfolding u_def using 4 fh raiseResult_scored [OF p] by simp
  have fr: "sameFrame s u"
  proof -
    have a: "sameFrame t (rankLoop p gs v t)" for t
      unfolding rankLoop_def by (rule fold_sameFrame) (rule rankStep_frame)
    have b: "sameFrame t (twoPairStep p v t)" for t
      by (simp add: twoPairStep_def sameFrame_def)
    have c: "sameFrame t (straightLoop p sx t)" for t
      unfolding straightLoop_def by (rule fold_sameFrame) (rule straightStep_frame)
    have d: "sameFrame t (fixLoop p v t)" for t
      unfolding fixLoop_def by (rule fold_sameFrame) (rule fixStep_frame)
    have e: "sameFrame t (fullHouseStep p v t)" for t
      by (simp add: fullHouseStep_def sameFrame_def)
    note tr = sameFrame_trans
    show ?thesis
      unfolding u_def
      by (rule tr [OF _ raiseResult_frame] tr [OF _ e] tr [OF _ d] tr [OF _ c] tr [OF _ b] a)+
  qed
  then have actu: "activePlayers u = [p]" using act by (simp add: sameFrame_def)
  have hk: "resultList (keepHoleRanks gs w (highCardStep p w t)) = resultList t" for t w
    by (simp add: keepHoleRanks_def highCardStep_def)
  have eq: "resultList (scoreHand p gs cs s) = resultList (markInactive u)"
    unfolding scoreHand_def Let_def u_def v_def sx_def st_def fl_def by (rule hk)
  have 6: "scored p (markInactive u)"
    using markInactive_scored [of p u] 5 actu by simp
  have 7: "\<forall>j < 4. j \<noteq> p \<longrightarrow> resultList (markInactive u) ! j = - 1"
    using markInactive_others [of u] 5 actu by (simp add: scored_def)
  show ?thesis
    using 6 7 by (simp add: eq scored_def)
qed


lemma showdown_sole:
  assumes "p < 4" and "length (resultList u) = 4" and "0 \<le> resultList u ! p"
    and "\<forall>j < 4. j \<noteq> p \<longrightarrow> resultList u ! j = - 1"
  shows "showdown u = Inr (False, u\<lparr>topHand := Some (int p)\<rparr>)"
proof -
  obtain a b c d where r: "resultList u = [a, b, c, d]"
    using assms(2) by (auto simp: length_Suc_conv eval_nat_numeral)
  have others: "p \<noteq> 0 \<Longrightarrow> a = - 1" "p \<noteq> 1 \<Longrightarrow> b = - 1" "p \<noteq> 2 \<Longrightarrow> c = - 1" "p \<noteq> 3 \<Longrightarrow> d = - 1"
    using assms(4) [rule_format, of 0] assms(4) [rule_format, of 1]
      assms(4) [rule_format, of 2] assms(4) [rule_format, of 3] r
    by simp_all
  consider "p = 0" | "p = 1" | "p = 2" | "p = 3" using assms(1) by linarith
  then show ?thesis
  proof cases
    case 1
    then have "0 \<le> a" "b = - 1" "c = - 1" "d = - 1" using assms(3) others r by auto
    then show ?thesis using 1 by (simp add: showdown_def r maxList_def getOccurrence_def)
  next
    case 2
    then have "0 \<le> b" "a = - 1" "c = - 1" "d = - 1" using assms(3) others r by auto
    then show ?thesis using 2 by (simp add: showdown_def r maxList_def getOccurrence_def)
  next
    case 3
    then have "0 \<le> c" "a = - 1" "b = - 1" "d = - 1" using assms(3) others r by auto
    then show ?thesis using 3 by (simp add: showdown_def r maxList_def getOccurrence_def)
  next
    case 4
    then have "0 \<le> d" "a = - 1" "b = - 1" "c = - 1" using assms(3) others r by auto
    then show ?thesis using 4 by (simp add: showdown_def r maxList_def getOccurrence_def)
  qed
qed

lemma finish_last_step:
  "p \<in> set (activePlayers u) \<Longrightarrow> finish p 4 (Some p) f u = endOfHand (doubleStep p u)"
  by (simp add: finish_def indexOf_absent betStep1_def betStep2_def betStep3_def maxBetStep_def)

lemma showPlayersCards_dealt:
  "length (playersHands u) = 4 \<Longrightarrow> list_all (\<lambda>h. length h = 2) (playersHands u) \<Longrightarrow>
   showPlayersCards u = Inr u"
proof -
  assume l: "length (playersHands u) = 4" and a: "list_all (\<lambda>h. length h = 2) (playersHands u)"
  obtain h0 h1 h2 h3 where h: "playersHands u = [h0, h1, h2, h3]"
    using l by (auto simp: length_Suc_conv eval_nat_numeral)
  have "h0 \<noteq> [] \<and> h1 \<noteq> [] \<and> h2 \<noteq> [] \<and> h3 \<noteq> []" using a h by auto
  then show ?thesis
    by (simp add: showPlayersCards_def h nth_opt_def upt_rec)
qed

lemma cardsArr_readable:
  assumes "p < 4" and "length (playersHands s) = 4"
    and "list_all (\<lambda>h. length h = 2) (playersHands s)"
    and "length (communityCards s) = 5" and "Undefined \<notin> set (communityCards s)"
  shows "Undefined \<notin> set (cardsArrOf s p 4)"
proof -
  have "length (playersHands s ! p) = 2"
    using assms(1,2,3) by (simp add: list_all_length)
  moreover have "Undefined \<noteq> communityCards s ! k" if "k < 5" for k
    using that assms(4,5) by (metis nth_mem)
  ultimately show ?thesis
    using assms(1,2,4)
    by (auto simp: cardsArrOf_def handSlot_def communitySlot_def Let_def)
qed


subsection \<open>A sole active seat\<close>

lemma lastActive_sole: "activePlayers s = [p] \<Longrightarrow> lastActive s = Some p"
  by (simp add: lastActive_def)

text \<open>
  Claim C2. On a table at the river where seat \<open>p\<close> alone is active (its result is not
  negative, the four hands are dealt, the five community entries can be read),
  \<open>evaluateHand(p, 4)\<close> returns, whatever the cards and the results are, with
  \<open>topHand = p\<close> and the pot unsplit: for seat 0 the player is credited the full pot and
  told so, for another seat the player is told the loss of the bet and seat \<open>p\<close> is
  shown as the winner.
\<close>

theorem sole_active_player_wins:
  assumes "p < 4" and "activePlayers s = [p]"
    and "length (resultList s) = 4" and "0 \<le> resultList s ! p"
    and "length (playersHands s) = 4" and "list_all (\<lambda>h. length h = 2) (playersHands s)"
    and "length (communityCards s) = 5" and "Undefined \<notin> set (communityCards s)"
  shows "\<exists>t. evaluateHand p 4 s = Inr t \<and> topHand t = Some (int p) \<and> thePot t = thePot s
           \<and> (if p = 0
               then playerMoney t = playerMoney s + thePot s \<and> messageElement t = YouWon (thePot s)
               else playerMoney t = playerMoney s \<and> messageElement t = YouLost (bet s))"
proof -
  let ?cs = "cardsArrOf s p 4"
  let ?u = "scoreHand p 4 ?cs s"
  let ?w = "doubleStep p (?u\<lparr>topHand := Some (int p)\<rparr>)"
  have readable: "Undefined \<notin> set ?cs"
    using assms(1,5,6,7,8) by (rule cardsArr_readable)
  have fr: "sameFrame s ?u" by (rule scoreHand_frame)
  have sole: "length (resultList ?u) = 4 \<and> 0 \<le> resultList ?u ! p
       \<and> (\<forall>j < 4. j \<noteq> p \<longrightarrow> resultList ?u ! j = - 1)"
    using assms(1,2,3,4) scoreHand_sole [of p s 4 ?cs] by (simp add: scored_def)
  have sd: "showdown ?u = Inr (False, ?u\<lparr>topHand := Some (int p)\<rparr>)"
    using showdown_sole [of p ?u] assms(1) sole by blast
  have wfacts: "topHand ?w = Some (int p) \<and> thePot ?w = thePot s \<and> playerMoney ?w = playerMoney s
      \<and> bet ?w = bet s \<and> playersHands ?w = playersHands s"
    using fr by (simp add: doubleStep_def sameFrame_def)
  have "p \<in> set (activePlayers (?u\<lparr>topHand := Some (int p)\<rparr>))"
    using fr assms(2) by (simp add: sameFrame_def)
  then have fin: "finish p 4 (Some p) (roundFlags True ?cs) (?u\<lparr>topHand := Some (int p)\<rparr>) = endOfHand ?w"
    by (rule finish_last_step)
  have ev: "evaluateHand p 4 s = endOfHand ?w"
    unfolding evaluateHand_def Let_def lastActive_sole [OF assms(2)]
    using readable assms(1,5) by (simp add: sd fin)
  show ?thesis
  proof (cases "p = 0")
    case True
    have "showPlayersCards (youWin Default ?w) = Inr (youWin Default ?w)"
      using wfacts assms(5,6) by (intro showPlayersCards_dealt) (simp_all add: youWin_def Let_def)
    then have "endOfHand ?w = Inr (youWin Default ?w)"
      using True wfacts by (simp add: endOfHand_def)
    then show ?thesis
      using ev True wfacts by (simp add: youWin_def Let_def)
  next
    case False
    have "showPlayersCards (?w\<lparr>messageElement := YouLost (bet ?w)\<rparr>)
          = Inr (?w\<lparr>messageElement := YouLost (bet ?w)\<rparr>)"
      using wfacts assms(5,6) by (intro showPlayersCards_dealt) simp_all
    then have "endOfHand ?w = Inr (?w\<lparr>messageElement := YouLost (bet ?w)\<rparr>)"
      using False wfacts assms(1) by (simp add: endOfHand_def youLose_def)
    then show ?thesis
      using ev False wfacts by simp
  qed
qed

text \<open>
  Witness for C2: the table \<open>soleTable\<close> for seat 0 and for seat 2, with the pot of 40.
\<close>

theorem sole_active_player_wins_witness:
  "(\<exists>t. evaluateHand 0 4 (soleTable 0) = Inr t \<and> topHand t = Some 0 \<and> thePot t = 40
        \<and> playerMoney t = 530 \<and> messageElement t = YouWon 40)
   \<and> (\<exists>t. evaluateHand 2 4 (soleTable 2) = Inr t \<and> topHand t = Some 2 \<and> thePot t = 40
        \<and> playerMoney t = 490 \<and> messageElement t = YouLost 10)"
proof -
  have h: "length (resultList (soleTable p)) = 4" "0 \<le> resultList (soleTable p) ! p"
      "length (playersHands (soleTable p)) = 4"
      "list_all (\<lambda>h. length h = 2) (playersHands (soleTable p))"
      "length (communityCards (soleTable p)) = 5" "Undefined \<notin> set (communityCards (soleTable p))"
      "activePlayers (soleTable p) = [p]"
    if "p < 4" for p
    using that
    by (auto simp: soleTable_def dealReset_def tieDeal_def tieFlop_def nth_Cons split: nat.splits)
  have m: "thePot (soleTable p) = 40" "playerMoney (soleTable p) = 490" "bet (soleTable p) = 10" for p
    by (simp_all add: soleTable_def dealReset_def)
  have z: "(0::nat) < 4" and t: "(2::nat) < 4" by simp_all
  from sole_active_player_wins [OF z h(7) [OF z] h(1) [OF z] h(2) [OF z] h(3) [OF z] h(4) [OF z]
      h(5) [OF z] h(6) [OF z]]
    sole_active_player_wins [OF t h(7) [OF t] h(1) [OF t] h(2) [OF t] h(3) [OF t] h(4) [OF t]
      h(5) [OF t] h(6) [OF t]]
  show ?thesis by (simp add: m)
qed

text \<open>
  The fold that leaves seat 0 alone pays at once: \<open>removeActivePlyr\<close> calls
  \<open>youWin("default")\<close> when the array of active seats has become \<open>[0]\<close>.
\<close>

lemma removeActivePlyr_last_fold:
  "filter (\<lambda>q. q \<noteq> r) (activePlayers s) = [0] \<Longrightarrow>
   playerMoney (removeActivePlyr r s) = playerMoney s + thePot s
   \<and> thePot (removeActivePlyr r s) = thePot s
   \<and> messageElement (removeActivePlyr r s) = YouWon (thePot s)"
  by (simp add: removeActivePlyr_def youWin_def Let_def)

subsection \<open>Split pots\<close>

lemma knockOut_frame: "knockOut w xs s = Inr t \<Longrightarrow> sameFrame s t"
proof (induction xs arbitrary: s)
  case Nil
  then show ?case by (simp add: sameFrame_def)
next
  case (Cons i xs)
  show ?case
  proof (cases "resultList s ! i \<noteq> w")
    case True
    then have k: "knockOut w xs (s\<lparr>compareCards := (compareCards s)[i := - 1],
                   bestHoleCards := (bestHoleCards s)[i := setBoth (bestHoleCards s ! i)]\<rparr>) = Inr t"
      using Cons.prems by (auto split: if_splits)
    from Cons.IH [OF k] show ?thesis by (simp add: sameFrame_def)
  next
    case False
    then have "knockOut w xs s = Inr t" using Cons.prems by simp
    then show ?thesis by (rule Cons.IH)
  qed
qed

lemma twoPairCut_frame: "sameFrame s (twoPairCut s)"
proof -
  have c: "sameFrame t (cutUnless ks i t)" for ks i t
    by (simp add: cutUnless_def cutSeat_def sameFrame_def)
  show ?thesis
    unfolding twoPairCut_def Let_def
    by (rule sameFrame_trans [OF fold_sameFrame fold_sameFrame]) (rule c)+
qed

lemma holeStep_frame:
  assumes "holeStep m i hi lo s = (b, hi', lo', t)"
  shows "sameFrame s t"
proof -
  have d: "sameFrame s (dropHoles m i s)"
    by (simp add: dropHoles_def sameFrame_def)
  have e: "sameFrame u (setTop c i u)" for c u
    by (simp add: setTop_def sameFrame_def)
  obtain c1 c2 where "t = setTop c2 i (setTop c1 i (dropHoles m i s))"
    using assms unfolding holeStep_def Let_def by blast
  then show ?thesis
    using sameFrame_trans [OF sameFrame_trans [OF d e] e] by simp
qed

lemma holeLoop_frame: "holeLoop m xs hi lo s = (b, t) \<Longrightarrow> sameFrame s t"
proof (induction xs arbitrary: hi lo s)
  case Nil
  then show ?case by (simp add: sameFrame_def)
next
  case (Cons i xs)
  obtain b1 hi1 lo1 t1 where st: "holeStep m i hi lo s = (b1, hi1, lo1, t1)"
    by (cases "holeStep m i hi lo s") auto
  have f1: "sameFrame s t1" using st by (rule holeStep_frame)
  show ?case
  proof (cases b1)
    case True
    then have "t = t1" using Cons.prems st by simp
    then show ?thesis using f1 by simp
  next
    case False
    then have "holeLoop m xs hi1 lo1 t1 = (b, t)" using Cons.prems st by simp
    then have "sameFrame t1 t" by (rule Cons.IH)
    with f1 show ?thesis by (rule sameFrame_trans)
  qed
qed

lemma halved_frame: "sameFrame s u \<Longrightarrow> halved u t \<Longrightarrow> halved s t"
  by (simp add: sameFrame_def halved_def)

lemma splitExit_halved: "splitExit s = Inr (b, t) \<Longrightarrow> b \<and> halved s t"
  by (auto simp: splitExit_def showPlayersCards_def youWin_def halved_def Let_def
      split: sum.splits if_splits)

text \<open>What a part of the showdown may do to the pot: halve it on a split, or leave it.\<close>

lemma decideHoles_outcome:
  assumes "decideHoles wl s = Inr (b, t)"
  shows "if b then halved s t else sameFrame s t"
proof -
  let ?s3 = "s\<lparr>topHand := Some (indexOf wl (maxList wl))\<rparr>"
  have f3: "sameFrame s ?s3" by (simp add: sameFrame_def)
  show ?thesis
  proof (cases "getOccurrence wl (maxList wl) > 1")
    case True
    obtain hb ht where hl: "holeLoop (maxList wl) [0 ..< length (bestHoleCards ?s3)] 0 0 ?s3 = (hb, ht)"
      by (cases "holeLoop (maxList wl) [0 ..< length (bestHoleCards ?s3)] 0 0 ?s3") auto
    have fh: "sameFrame s ht" using f3 holeLoop_frame [OF hl] by (rule sameFrame_trans)
    have rest: "(if hb then splitExit ht else Inr (False, ht)) = Inr (b, t)"
      using assms True hl unfolding decideHoles_def Let_def by (cases hb) simp_all
    show ?thesis
    proof (cases hb)
      case True
      then have "splitExit ht = Inr (b, t)" using rest by simp
      then have "b \<and> halved ht t" by (rule splitExit_halved)
      then show ?thesis using fh halved_frame by auto
    next
      case False
      then have "b = False" "t = ht" using rest by auto
      then show ?thesis using fh by simp
    qed
  next
    case False
    then have "b = False \<and> t = ?s3"
      using assms unfolding decideHoles_def Let_def by simp
    then show ?thesis using f3 by simp
  qed
qed

lemma holeCompare_outcome:
  "holeCompare s = Inr (b, t) \<Longrightarrow> (if b then halved s t else sameFrame s t)"
  unfolding holeCompare_def
  by (cases "winnersLoop s [0 ..< 4]") (simp_all add: decideHoles_outcome del: upt_Suc)

lemma tieBreak_outcome:
  assumes "tieBreak w s = Inr (b, t)"
  shows "if b then halved s t else sameFrame s t"
proof -
  let ?s1 = "straightTop w s"
  let ?s2 = "if w = 2 then twoPairCut ?s1 else ?s1"
  have f1: "sameFrame s ?s1" by (simp add: straightTop_def sameFrame_def)
  have f2: "sameFrame s ?s2"
    using f1 twoPairCut_frame [of ?s1] sameFrame_trans by auto
  show ?thesis
  proof (cases "straightSplit w ?s1")
    case True
    then have "splitExit ?s1 = Inr (b, t)"
      using assms unfolding tieBreak_def Let_def by simp
    then have "b \<and> halved ?s1 t" by (rule splitExit_halved)
    then show ?thesis using f1 halved_frame by auto
  next
    case False
    then have "holeCompare ?s2 = Inr (b, t)"
      using assms unfolding tieBreak_def Let_def by simp
    then have "if b then halved ?s2 t else sameFrame ?s2 t" by (rule holeCompare_outcome)
    then show ?thesis
      using f2 halved_frame [OF f2] sameFrame_trans [OF f2] by (cases b) simp_all
  qed
qed

lemma showdown_outcome:
  assumes "showdown s = Inr (b, t)"
  shows "if b then halved s t else sameFrame s t"
proof (cases "getOccurrence (resultList s) (maxList (resultList s)) = 1")
  case True
  then have "b = False \<and> t = s\<lparr>topHand := Some (indexOf (resultList s) (maxList (resultList s)))\<rparr>"
    using assms unfolding showdown_def Let_def by simp
  then show ?thesis by (simp add: sameFrame_def)
next
  case False
  obtain s1 where k: "knockOut (maxList (resultList s)) [0 ..< length (resultList s)] s = Inr s1"
    using assms False unfolding showdown_def Let_def by (auto split: sum.splits)
  have f1: "sameFrame s s1" using k by (rule knockOut_frame)
  have f2: "sameFrame s (compareTop s1)" using f1 by (simp add: compareTop_def sameFrame_def)
  show ?thesis
  proof (cases "getOccurrence (compareCards s1) (maxList (compareCards s1)) > 1")
    case True
    then have "tieBreak (maxList (resultList s)) (compareTop s1) = Inr (b, t)"
      using assms \<open>getOccurrence (resultList s) (maxList (resultList s)) \<noteq> 1\<close> k
      unfolding showdown_def Let_def by simp
    then have "if b then halved (compareTop s1) t else sameFrame (compareTop s1) t"
      by (rule tieBreak_outcome)
    then show ?thesis
      using halved_frame [OF f2] sameFrame_trans [OF f2] by (cases b) simp_all
  next
    case nt: False
    then have "b = False \<and> t = compareTop s1"
      using assms False k unfolding showdown_def Let_def by simp
    then show ?thesis using f2 by simp
  qed
qed

lemma foldSeat_message:
  "messageElement (foldSeat i t) = SplitWon x \<Longrightarrow> messageElement t = SplitWon x"
  by (simp add: foldSeat_def setStatus_def removeActivePlyr_def youWin_def Let_def split: if_splits)

lemma foldCheckers_message:
  assumes "messageElement (foldCheckers u) = SplitWon x"
  shows "messageElement u = SplitWon x"
proof -
  have "messageElement (fold foldSeat xs t) = SplitWon x \<Longrightarrow> messageElement t = SplitWon x" for xs t
  proof (induction xs arbitrary: t)
    case Nil
    then show ?case by simp
  next
    case (Cons i xs)
    then have "messageElement (foldSeat i t) = SplitWon x" by simp
    then show ?case by (rule foldSeat_message)
  qed
  then show ?thesis
    using assms by (cases "Betting \<in> set (seatStatus u)") (simp_all add: foldCheckers_def)
qed

lemma bet_steps_message:
  "messageElement (betStep1 it gs f u) = messageElement u"
  "messageElement (doubleStep it u) = messageElement u"
  "messageElement (betStep2 it gs f u) = messageElement u"
  "messageElement (betStep3 it gs f u) = messageElement u"
  "messageElement (maxBetStep it gs f u) = messageElement u"
  by (simp_all add: betStep1_def doubleStep_def betStep2_def betStep3_def maxBetStep_def setStatus_def)

lemma endOfHand_message: "endOfHand u = Inr t \<Longrightarrow> messageElement t \<noteq> SplitWon x"
  by (auto simp: endOfHand_def youWin_def youLose_def showPlayersCards_def Let_def
      split: if_splits sum.splits option.splits)

lemma finish_message:
  assumes "finish it gs li f u = Inr t" and "messageElement t = SplitWon x"
  shows "messageElement u = SplitWon x"
proof -
  let ?v = "maxBetStep it gs f (betStep3 it gs f (betStep2 it gs f (doubleStep it (betStep1 it gs f u))))"
  have mv: "messageElement ?v = messageElement u" by (simp add: bet_steps_message)
  have "finish it gs li f u = Inr u \<or> finish it gs li f u = Inr (foldCheckers (betStep1 it gs f u))
      \<or> finish it gs li f u = Inr (foldCheckers ?v) \<or> finish it gs li f u = endOfHand ?v
      \<or> finish it gs li f u = Inr ?v"
    unfolding finish_def Let_def by simp
  then consider "t = u" | "t = foldCheckers (betStep1 it gs f u)" | "t = foldCheckers ?v"
    | "endOfHand ?v = Inr t" | "t = ?v"
    using assms(1) by auto
  then show ?thesis
  proof cases
    case 1
    then show ?thesis using assms(2) by simp
  next
    case 2
    then show ?thesis using assms(2) foldCheckers_message bet_steps_message(1) by metis
  next
    case 3
    then show ?thesis using assms(2) foldCheckers_message mv by metis
  next
    case 4
    then show ?thesis using assms(2) endOfHand_message by blast
  next
    case 5
    then show ?thesis using assms(2) mv by simp
  qed
qed

text \<open>
  Claim C1, as the code has it. Whenever a call of \<open>evaluateHand\<close> announces a split pot
  (the message was not a split before the call and is one after it), the pot has been
  halved and the player at seat 0 has been credited that half, whatever the number of
  tied seats: the share is \<open>1/2\<close>, which is \<open>1/|subset|\<close> for a tie of two.
\<close>

theorem split_pays_half:
  assumes "evaluateHand it gs s = Inr t" and "messageElement t = SplitWon x"
    and "\<forall>y. messageElement s \<noteq> SplitWon y"
  shows "x = thePot s / 2 \<and> thePot t = thePot s / 2 \<and> playerMoney t = playerMoney s + thePot s / 2"
proof -
  let ?cs = "cardsArrOf s it gs"
  let ?u = "scoreHand it gs ?cs s"
  have fr: "sameFrame s ?u" by (rule scoreHand_frame)
  have ok: "\<not> (it \<ge> length (playersHands s) \<or> Undefined \<in> set ?cs)"
    using assms(1) unfolding evaluateHand_def Let_def by (auto split: if_splits)
  show ?thesis
  proof (cases "gs = 4 \<and> lastActive s = Some it")
    case True
    then have ev: "(case showdown ?u of
                 Inl e \<Rightarrow> Inl e
               | Inr (True, t) \<Rightarrow> Inr t
               | Inr (False, t) \<Rightarrow> finish it gs (lastActive s) (roundFlags True ?cs) t) = Inr t"
      using assms(1) ok unfolding evaluateHand_def Let_def by simp
    then obtain b v where sd: "showdown ?u = Inr (b, v)"
      by (cases "showdown ?u") auto
    have out: "if b then halved ?u v else sameFrame ?u v" using sd by (rule showdown_outcome)
    show ?thesis
    proof (cases b)
      case True
      then have "t = v" using ev sd by simp
      moreover have "halved s v" using out True halved_frame [OF fr] by simp
      ultimately show ?thesis using assms(2) by (auto simp: halved_def)
    next
      case False
      then have "finish it gs (lastActive s) (roundFlags True ?cs) v = Inr t" using ev sd by simp
      then have "messageElement v = SplitWon x" using assms(2) by (rule finish_message)
      moreover have "sameFrame s v" using out False sameFrame_trans [OF fr] by simp
      ultimately have "messageElement s = SplitWon x" by (simp add: sameFrame_def)
      then show ?thesis using assms(3) by simp
    qed
  next
    case False
    then have "finish it gs (lastActive s) (roundFlags False ?cs) ?u = Inr t"
      using assms(1) ok unfolding evaluateHand_def Let_def by (simp split: if_splits)
    then have "messageElement ?u = SplitWon x" using assms(2) by (rule finish_message)
    then have "messageElement s = SplitWon x" using fr by (simp add: sameFrame_def)
    then show ?thesis using assms(3) by simp
  qed
qed

text \<open>
  Witness for C1: the tie of three, just before the last call of \<open>evaluateHand\<close>; the
  call for seat 3 announces the split and pays 20 of the 40 in the pot.
\<close>

theorem split_pays_half_witness:
  "\<exists>s t. tieBeforeLast = Inr s \<and> evaluateHand 3 4 s = Inr t \<and> messageElement s = NoMessage
         \<and> messageElement t = SplitWon 20 \<and> thePot s = 40
         \<and> thePot t = thePot s / 2 \<and> playerMoney t = playerMoney s + thePot s / 2"
proof -
  have run: "case tieBeforeLast of
               Inl e \<Rightarrow> False
             | Inr s \<Rightarrow> messageElement s = NoMessage \<and> thePot s = 40
                 \<and> (case evaluateHand 3 4 s of
                       Inl e \<Rightarrow> False
                     | Inr t \<Rightarrow> messageElement t = SplitWon 20)"
    by code_simp
  then have "\<exists>s. tieBeforeLast = Inr s \<and> messageElement s = NoMessage \<and> thePot s = 40
      \<and> (\<exists>t. evaluateHand 3 4 s = Inr t \<and> messageElement t = SplitWon 20)"
    by (auto split: sum.splits)
  then obtain s t where s: "tieBeforeLast = Inr s" "messageElement s = NoMessage" "thePot s = 40"
    and t: "evaluateHand 3 4 s = Inr t" "messageElement t = SplitWon 20"
    by blast
  have "\<forall>y. messageElement s \<noteq> SplitWon y" using s(2) by simp
  from split_pays_half [OF t(1) t(2) this] s t show ?thesis by blast
qed

text \<open>
  Counterexample to C1 as stated: in the tie of three (seats 0, 1 and 2 hold ace, king,
  jack, nine, seven; seat 3 holds a queen high) the pot is 40 before the showdown, the
  showdown announces a split and pays the player 20, one half of the pot and not one
  third.
\<close>

theorem split_share_counterexample:
  "(case playTo 3 tieDeal tieFlop ''jack-diamonds'' ''four-spades'' of
      Inl e \<Rightarrow> False
    | Inr s \<Rightarrow> thePot s = 40 \<and> playerMoney s = 490 \<and> activePlayers s = [0, 1, 2, 3])
   \<and> (case playTo 4 tieDeal tieFlop ''jack-diamonds'' ''four-spades'' of
      Inl e \<Rightarrow> False
    | Inr t \<Rightarrow> messageElement t = SplitWon 20 \<and> playerMoney t = 490 + 20
              \<and> resultList t = [0, 0, 0, 0] \<and> compareCards t = [12, 12, 12, 10])
   \<and> (20::rat) \<noteq> 40 / 3"
  by code_simp

subsection \<open>Straight flush, wheel and community cards at failing inputs\<close>

text \<open>
  Claim C3 at two failing inputs. After the turn seat 0 holds the hearts two, three,
  four, five and nine and the six of spades: a flush in hearts and a straight from two to
  six that needs the spade. The evaluator assigns result 8, which \<open>handHeirarchy\<close> names
  \<open>straight-flush\<close>. In the second deal seat 0 holds the hearts ten, jack, queen, king
  and two and the ace of spades, and the evaluator assigns result 9, \<open>royal-flush\<close>.
\<close>

theorem straight_flush_off_suit:
  "(case playTo 3 flushDeal flushFlop ''six-spades'' [] of
      Inl e \<Rightarrow> False
    | Inr t \<Rightarrow> resultList t ! 0 = 8)
   \<and> handHeirarchy ! 8 = ''straight-flush''
   \<and> (case playTo 3 royalDeal royalFlop ''ace-spades'' [] of
      Inl e \<Rightarrow> False
    | Inr t \<Rightarrow> resultList t ! 0 = 9)
   \<and> handHeirarchy ! 9 = ''royal-flush''"
  by code_simp

text \<open>
  Claim C4 at two failing inputs. In the first deal seat 0 holds ace, two, two, three,
  four and five after the turn: the result is 1 (a pair) and no straight card is
  recorded. In the second deal seat 0 holds the wheel and seat 1 the straight from two to
  six; both get result 4, the recorded top cards are the indices 3 (five) and 4 (six), and
  the showdown makes seat 0 the top hand and pays the player the whole pot.
\<close>

theorem wheel_misjudged:
  "(case playTo 3 wheelDeal wheelPairFlop ''five-spades'' [] of
      Inl e \<Rightarrow> False
    | Inr t \<Rightarrow> resultList t ! 0 = 1 \<and> playerStraightHighCard t ! 0 = 0)
   \<and> handHeirarchy ! 1 = ''pair''
   \<and> (case playTo 4 wheelSixDeal wheelSixFlop ''four-spades'' ''five-diamonds'' of
      Inl e \<Rightarrow> False
    | Inr t \<Rightarrow> resultList t = [4, 4, 0, 0] \<and> playerStraightHighCard t = [3, 4, 0, 0]
              \<and> topHand t = Some 0 \<and> messageElement t = YouWon 40)"
  by code_simp

text \<open>
  Claim C5 at a failing input. Seat 0 holds five and six, and the flop is seven, eight,
  nine. Evaluating the hand of seat 0 at the flop overwrites the first community card, the
  seven of clubs, with the number 1.
\<close>

theorem community_card_overwritten:
  "(case playTo 1 straightDeal straightFlop [] [] of
      Inl e \<Rightarrow> False
    | Inr s \<Rightarrow>
        communityCards (drawCommunity 3 straightFlop s)
          = map (\<lambda>t. CardSlot (cardOfTitle t)) straightFlop
        \<and> (case evaluateHand 0 2 (drawCommunity 3 straightFlop s) of
             Inl e \<Rightarrow> False
           | Inr t \<Rightarrow> communityCards t
               = [NumSlot 1, CardSlot (cardOfTitle ''eight-hearts''),
                  CardSlot (cardOfTitle ''nine-spades'')]))"
  by code_simp

subsection \<open>Drawing cards\<close>

lemma fresh_push:
  "t \<in> fresh deck s \<Longrightarrow> card (fresh deck (pushCommunity t s)) = card (fresh deck s) - 1"
proof -
  assume a: "t \<in> fresh deck s"
  have "fresh deck (pushCommunity t s) = fresh deck s - {t}"
    by (auto simp: fresh_def pushCommunity_def)
  moreover have "finite (fresh deck s)" by (simp add: fresh_def)
  ultimately show ?thesis using a by simp
qed

lemma build_step:
  "length (communityCards s) < howMany \<Longrightarrow> rnd k < length deck \<Longrightarrow>
   buildCommunityCards deck rnd howMany k s =
     (if deck ! rnd k \<in> fresh deck s
      then buildCommunityCards deck rnd howMany (Suc k) (pushCommunity (deck ! rnd k) s)
      else buildCommunityCards deck rnd howMany (Suc k) s)"
  by (subst buildCommunityCards.simps) (simp add: indexOf_absent fresh_def)

lemma build_done:
  "\<not> length (communityCards s) < howMany \<Longrightarrow>
   buildCommunityCards deck rnd howMany k s = Some (Inr (k, s))"
  by (subst buildCommunityCards.simps) simp

lemma build_skip:
  assumes "length (communityCards s) < howMany" and "\<forall>j. rnd j < length deck"
  shows "(\<forall>j. k \<le> j \<and> j < k + d \<longrightarrow> deck ! rnd j \<notin> fresh deck s) \<Longrightarrow>
         buildCommunityCards deck rnd howMany k s = buildCommunityCards deck rnd howMany (k + d) s"
proof (induction d arbitrary: k)
  case 0
  then show ?case by simp
next
  case (Suc d)
  have "deck ! rnd k \<notin> fresh deck s" using Suc.prems by simp
  then have "buildCommunityCards deck rnd howMany k s = buildCommunityCards deck rnd howMany (Suc k) s"
    using build_step [OF assms(1), of rnd k deck] assms(2) by simp
  moreover have "buildCommunityCards deck rnd howMany (Suc k) s
               = buildCommunityCards deck rnd howMany (Suc k + d) s"
    using Suc.prems by (intro Suc.IH) auto
  ultimately show ?case by simp
qed

lemma build_returns:
  assumes range: "\<forall>j. rnd j < length deck"
    and fair: "\<forall>i < length deck. \<forall>k. \<exists>j \<ge> k. rnd j = i"
  shows "howMany - length (communityCards s) \<le> card (fresh deck s) \<Longrightarrow>
         \<exists>k' t. buildCommunityCards deck rnd howMany k s = Some (Inr (k', t))
               \<and> length (communityCards t) = max howMany (length (communityCards s))
               \<and> take (length (communityCards s)) (communityCards t) = communityCards s"
proof (induction "howMany - length (communityCards s)" arbitrary: k s)
  case 0
  then have "\<not> length (communityCards s) < howMany" by simp
  then show ?case using build_done [of s howMany deck rnd k] by (auto simp: max_def)
next
  case (Suc n)
  have short: "length (communityCards s) < howMany" using Suc.hyps(2) by simp
  have "card (fresh deck s) \<noteq> 0" using Suc.prems Suc.hyps(2) by simp
  then obtain x where x: "x \<in> fresh deck s" by (metis card.empty all_not_in_conv)
  then obtain i where i: "i < length deck" "deck ! i = x"
    by (auto simp: fresh_def in_set_conv_nth)
  obtain j where j: "j \<ge> k" "rnd j = i" using fair i(1) by blast
  define Q where "Q = (\<lambda>d. deck ! rnd (k + d) \<in> fresh deck s)"
  have "Q (j - k)" using j i x by (simp add: Q_def)
  define d where "d = (LEAST d. Q d)"
  have qd: "Q d" unfolding d_def using \<open>Q (j - k)\<close> by (rule LeastI)
  have before: "\<forall>m. k \<le> m \<and> m < k + d \<longrightarrow> deck ! rnd m \<notin> fresh deck s"
  proof (intro allI impI)
    fix m assume m: "k \<le> m \<and> m < k + d"
    then have "m - k < d" by arith
    then have "\<not> Q (m - k)" unfolding d_def by (rule not_less_Least)
    then show "deck ! rnd m \<notin> fresh deck s" using m by (simp add: Q_def)
  qed
  let ?t = "deck ! rnd (k + d)"
  let ?s' = "pushCommunity ?t s"
  have tf: "?t \<in> fresh deck s" using qd by (simp add: Q_def)
  have e1: "buildCommunityCards deck rnd howMany k s = buildCommunityCards deck rnd howMany (k + d) s"
    using build_skip [OF short range] before by blast
  have e2: "buildCommunityCards deck rnd howMany (k + d) s
          = buildCommunityCards deck rnd howMany (Suc (k + d)) ?s'"
    using build_step [OF short, of rnd "k + d" deck] range tf by simp
  have len: "length (communityCards ?s') = Suc (length (communityCards s))"
    by (simp add: pushCommunity_def)
  have n: "n = howMany - length (communityCards ?s')" using Suc.hyps(2) len by simp
  have enough: "howMany - length (communityCards ?s') \<le> card (fresh deck ?s')"
    using Suc.prems fresh_push [OF tf] len by simp
  from Suc.hyps(1) [OF n enough, of "Suc (k + d)"]
  obtain k' t where r: "buildCommunityCards deck rnd howMany (Suc (k + d)) ?s' = Some (Inr (k', t))"
    and l: "length (communityCards t) = max howMany (length (communityCards ?s'))"
    and p: "take (length (communityCards ?s')) (communityCards t) = communityCards ?s'"
    by blast
  have "take (length (communityCards s)) (communityCards t)
        = take (length (communityCards s)) (take (length (communityCards ?s')) (communityCards t))"
    by (simp add: len min_def)
  also have "\<dots> = communityCards s" by (simp add: p) (simp add: pushCommunity_def)
  finally have "take (length (communityCards s)) (communityCards t) = communityCards s" .
  moreover have "length (communityCards t) = max howMany (length (communityCards s))"
    using l len short by (simp add: max_def)
  ultimately show ?case using e1 e2 r by simp
qed

lemma build_hangs:
  assumes range: "\<forall>j. rnd j < length deck"
    and few: "card (fresh deck s) < howMany - length (communityCards s)"
  shows "buildCommunityCards deck rnd howMany k s = None"
proof (cases "buildCommunityCards deck rnd howMany k s")
  case None
  then show ?thesis .
next
  case (Some y)
  let ?P = "\<lambda>d r (h::nat) (k::nat) t (y::error + nat \<times> table).
              \<not> ((\<forall>j. r j < length d) \<and> card (fresh d t) < h - length (communityCards t))"
  have "?P deck rnd howMany k s y"
  proof (rule buildCommunityCards.raw_induct [where P = ?P, OF _ Some])
    fix f :: "string list \<Rightarrow> (nat \<Rightarrow> nat) \<Rightarrow> nat \<Rightarrow> nat \<Rightarrow> table \<Rightarrow> (error + nat \<times> table) option"
    fix d r h k0 t y0
    assume ih: "\<And>d r h k t y. f d r h k t = Some y \<Longrightarrow> ?P d r h k t y"
    assume step: "(if length (communityCards t) < h then
        (if r k0 < length d then
           (if indexOf (usedCardsArr t) (d ! r k0) = - 1
            then f d r h (Suc k0) (pushCommunity (d ! r k0) t)
            else f d r h (Suc k0) t)
         else Some (Inl TypeError))
      else Some (Inr (k0, t))) = Some y0"
    show "?P d r h k0 t y0"
    proof
      assume c: "(\<forall>j. r j < length d) \<and> card (fresh d t) < h - length (communityCards t)"
      then have short: "length (communityCards t) < h" by arith
      have inr: "r k0 < length d" using c by simp
      show False
      proof (cases "d ! r k0 \<in> fresh d t")
        case True
        then have "f d r h (Suc k0) (pushCommunity (d ! r k0) t) = Some y0"
          using step short inr by (simp add: indexOf_absent fresh_def)
        moreover have "card (fresh d (pushCommunity (d ! r k0) t))
              < h - length (communityCards (pushCommunity (d ! r k0) t))"
        proof -
          have "card (fresh d t) \<noteq> 0" using True by (auto simp: fresh_def card_eq_0_iff)
          moreover have "length (communityCards (pushCommunity (d ! r k0) t))
                = Suc (length (communityCards t))"
            by (simp add: pushCommunity_def)
          ultimately show ?thesis
            using c fresh_push [OF True] by arith
        qed
        ultimately show False using ih c by blast
      next
        case False
        then have "f d r h (Suc k0) t = Some y0"
          using step short inr by (auto simp: indexOf_absent fresh_def)
        then show False using ih c by blast
      qed
    qed
  qed
  then show ?thesis using range few by simp
qed

lemma build_draws_titles:
  "distinct ts \<Longrightarrow> set ts \<inter> set (usedCardsArr s) = {} \<Longrightarrow>
   (\<forall>i < length ts. rnd (k + i) < length deck \<and> deck ! rnd (k + i) = ts ! i) \<Longrightarrow>
   length (communityCards s) + length ts = howMany \<Longrightarrow>
   buildCommunityCards deck rnd howMany k s = Some (Inr (k + length ts, drawCommunity howMany ts s))"
proof (induction ts arbitrary: k s)
  case Nil
  then show ?case using build_done [of s howMany deck rnd k] by simp
next
  case (Cons t ts)
  have short: "length (communityCards s) < howMany" using Cons.prems(4) by simp
  have d0: "rnd k < length deck" "deck ! rnd k = t" using Cons.prems(3) by auto
  have tf: "deck ! rnd k \<in> fresh deck s"
    using d0 Cons.prems(2) by (auto simp: fresh_def in_set_conv_nth)
  let ?s' = "pushCommunity t s"
  have e: "buildCommunityCards deck rnd howMany k s = buildCommunityCards deck rnd howMany (Suc k) ?s'"
    using build_step [where s = s and howMany = howMany and rnd = rnd and k = k and deck = deck]
      short tf d0 by simp
  have 1: "distinct ts" using Cons.prems(1) by simp
  have 2: "set ts \<inter> set (usedCardsArr ?s') = {}"
    using Cons.prems(1,2) by (auto simp: pushCommunity_def)
  have 3: "\<forall>i < length ts. rnd (Suc k + i) < length deck \<and> deck ! rnd (Suc k + i) = ts ! i"
  proof (intro allI impI)
    fix i assume "i < length ts"
    then have "Suc i < length (t # ts)" by simp
    from Cons.prems(3) [rule_format, OF this] show "rnd (Suc k + i) < length deck \<and> deck ! rnd (Suc k + i) = ts ! i"
      by simp
  qed
  have 4: "length (communityCards ?s') + length ts = howMany"
    using Cons.prems(4) by (simp add: pushCommunity_def)
  from Cons.IH [OF 1 2 3 4] e short show ?case by simp
qed

text \<open>
  The loop of \<open>generatePlayer\<close> that draws the two hole cards has the same shape.
\<close>

lemma draw_step:
  "length pc < 2 \<Longrightarrow> rnd k < length deck \<Longrightarrow>
   drawPlayersCards deck rnd k pc s =
     (if deck ! rnd k \<in> fresh deck s
      then drawPlayersCards deck rnd (Suc k) (pc @ [deck ! rnd k])
             (s\<lparr>usedCardsArr := usedCardsArr s @ [deck ! rnd k]\<rparr>)
      else drawPlayersCards deck rnd (Suc k) pc s)"
  by (subst drawPlayersCards.simps) (simp add: indexOf_absent fresh_def)

lemma draw_done:
  "\<not> length pc < 2 \<Longrightarrow> drawPlayersCards deck rnd k pc s = Some (Inr (k, pc, s))"
  by (subst drawPlayersCards.simps) simp

lemma fresh_mark:
  "t \<in> fresh deck s \<Longrightarrow>
   card (fresh deck (s\<lparr>usedCardsArr := usedCardsArr s @ [t]\<rparr>)) = card (fresh deck s) - 1"
proof -
  assume a: "t \<in> fresh deck s"
  have "fresh deck (s\<lparr>usedCardsArr := usedCardsArr s @ [t]\<rparr>) = fresh deck s - {t}"
    by (auto simp: fresh_def)
  moreover have "finite (fresh deck s)" by (simp add: fresh_def)
  ultimately show ?thesis using a by simp
qed

lemma draw_skip:
  assumes "length pc < 2" and "\<forall>j. rnd j < length deck"
  shows "(\<forall>j. k \<le> j \<and> j < k + d \<longrightarrow> deck ! rnd j \<notin> fresh deck s) \<Longrightarrow>
         drawPlayersCards deck rnd k pc s = drawPlayersCards deck rnd (k + d) pc s"
proof (induction d arbitrary: k)
  case 0
  then show ?case by simp
next
  case (Suc d)
  have "deck ! rnd k \<notin> fresh deck s" using Suc.prems by simp
  then have "drawPlayersCards deck rnd k pc s = drawPlayersCards deck rnd (Suc k) pc s"
    using draw_step [OF assms(1), of rnd k deck] assms(2) by simp
  moreover have "drawPlayersCards deck rnd (Suc k) pc s = drawPlayersCards deck rnd (Suc k + d) pc s"
    using Suc.prems by (intro Suc.IH) auto
  ultimately show ?case by simp
qed

lemma draw_returns:
  assumes range: "\<forall>j. rnd j < length deck"
    and fair: "\<forall>i < length deck. \<forall>k. \<exists>j \<ge> k. rnd j = i"
  shows "2 - length pc \<le> card (fresh deck s) \<Longrightarrow>
         \<exists>k' pc' t. drawPlayersCards deck rnd k pc s = Some (Inr (k', pc', t))
               \<and> length pc' = max 2 (length pc)"
proof (induction "2 - length pc" arbitrary: k pc s)
  case 0
  then have "\<not> length pc < 2" by simp
  then show ?case using draw_done [of pc deck rnd k s] by (auto simp: max_def)
next
  case (Suc n)
  have short: "length pc < 2" using Suc.hyps(2) by simp
  have "card (fresh deck s) \<noteq> 0" using Suc.prems Suc.hyps(2) by simp
  then obtain x where x: "x \<in> fresh deck s" by (metis card.empty all_not_in_conv)
  then obtain i where i: "i < length deck" "deck ! i = x"
    by (auto simp: fresh_def in_set_conv_nth)
  obtain j where j: "j \<ge> k" "rnd j = i" using fair i(1) by blast
  define Q where "Q = (\<lambda>d. deck ! rnd (k + d) \<in> fresh deck s)"
  have "Q (j - k)" using j i x by (simp add: Q_def)
  define d where "d = (LEAST d. Q d)"
  have qd: "Q d" unfolding d_def using \<open>Q (j - k)\<close> by (rule LeastI)
  have before: "\<forall>m. k \<le> m \<and> m < k + d \<longrightarrow> deck ! rnd m \<notin> fresh deck s"
  proof (intro allI impI)
    fix m assume m: "k \<le> m \<and> m < k + d"
    then have "m - k < d" by arith
    then have "\<not> Q (m - k)" unfolding d_def by (rule not_less_Least)
    then show "deck ! rnd m \<notin> fresh deck s" using m by (simp add: Q_def)
  qed
  let ?t = "deck ! rnd (k + d)"
  let ?s' = "s\<lparr>usedCardsArr := usedCardsArr s @ [?t]\<rparr>"
  have tf: "?t \<in> fresh deck s" using qd by (simp add: Q_def)
  have e1: "drawPlayersCards deck rnd k pc s = drawPlayersCards deck rnd (k + d) pc s"
    using draw_skip [OF short range] before by blast
  have e2: "drawPlayersCards deck rnd (k + d) pc s
          = drawPlayersCards deck rnd (Suc (k + d)) (pc @ [?t]) ?s'"
    using draw_step [OF short, of rnd "k + d" deck] range tf by simp
  have n: "n = 2 - length (pc @ [?t])" using Suc.hyps(2) by simp
  have enough: "2 - length (pc @ [?t]) \<le> card (fresh deck ?s')"
    using Suc.prems fresh_mark [OF tf] by simp
  from Suc.hyps(1) [OF n enough, of "Suc (k + d)"]
  obtain k' pc' t where r: "drawPlayersCards deck rnd (Suc (k + d)) (pc @ [?t]) ?s' = Some (Inr (k', pc', t))"
    and l: "length pc' = max 2 (length (pc @ [?t]))"
    by blast
  have "length pc' = max 2 (length pc)" using l short by (simp add: max_def)
  then show ?case using e1 e2 r by simp
qed

lemma draw_hangs:
  assumes range: "\<forall>j. rnd j < length deck"
    and few: "card (fresh deck s) < 2 - length pc"
  shows "drawPlayersCards deck rnd k pc s = None"
proof (cases "drawPlayersCards deck rnd k pc s")
  case None
  then show ?thesis .
next
  case (Some y)
  let ?P = "\<lambda>d r (k::nat) (p::string list) t (y::error + nat \<times> string list \<times> table).
              \<not> ((\<forall>j. r j < length d) \<and> card (fresh d t) < 2 - length p)"
  have "?P deck rnd k pc s y"
  proof (rule drawPlayersCards.raw_induct [where P = ?P, OF _ Some])
    fix f :: "string list \<Rightarrow> (nat \<Rightarrow> nat) \<Rightarrow> nat \<Rightarrow> string list \<Rightarrow> table
              \<Rightarrow> (error + nat \<times> string list \<times> table) option"
    fix d r k0 p t y0
    assume ih: "\<And>d r k p t y. f d r k p t = Some y \<Longrightarrow> ?P d r k p t y"
    assume step: "(if length p < 2 then
        (if r k0 < length d then
           (if indexOf (usedCardsArr t) (d ! r k0) = - 1
            then f d r (Suc k0) (p @ [d ! r k0]) (t\<lparr>usedCardsArr := usedCardsArr t @ [d ! r k0]\<rparr>)
            else f d r (Suc k0) p t)
         else Some (Inl TypeError))
      else Some (Inr (k0, p, t))) = Some y0"
    show "?P d r k0 p t y0"
    proof
      assume c: "(\<forall>j. r j < length d) \<and> card (fresh d t) < 2 - length p"
      then have short: "length p < 2" by arith
      have inr: "r k0 < length d" using c by simp
      show False
      proof (cases "d ! r k0 \<in> fresh d t")
        case True
        then have "f d r (Suc k0) (p @ [d ! r k0]) (t\<lparr>usedCardsArr := usedCardsArr t @ [d ! r k0]\<rparr>)
                   = Some y0"
          using step short inr by (simp add: indexOf_absent fresh_def)
        moreover have "card (fresh d (t\<lparr>usedCardsArr := usedCardsArr t @ [d ! r k0]\<rparr>))
              < 2 - length (p @ [d ! r k0])"
        proof -
          have "card (fresh d t) \<noteq> 0" using True by (auto simp: fresh_def card_eq_0_iff)
          then show ?thesis using c fresh_mark [OF True] by simp arith
        qed
        ultimately show False using ih c by blast
      next
        case False
        then have "f d r (Suc k0) p t = Some y0"
          using step short inr by (auto simp: indexOf_absent fresh_def)
        then show False using ih c by blast
      qed
    qed
  qed
  then show ?thesis using range few by simp
qed

text \<open>
  Claim C6, as the code has it. Let every draw be an index of the deck. If the draws
  come back to every index again and again and at least as many fresh cards remain as
  are still to be drawn, \<open>buildCommunityCards\<close> returns, with the array filled up to
  \<open>howMany\<close> and its earlier entries unchanged, and the loop of \<open>generatePlayer\<close>
  returns with two hole cards. If fewer fresh cards remain than are still to be drawn,
  neither loop ever returns: there is no signal for an exhausted deck.
\<close>

theorem draw_loop_returns_or_hangs:
  assumes "\<forall>j. rnd j < length deck"
  shows "((\<forall>i < length deck. \<forall>k. \<exists>j \<ge> k. rnd j = i)
          \<and> howMany - length (communityCards s) \<le> card (fresh deck s)
          \<longrightarrow> (\<exists>k' t. buildCommunityCards deck rnd howMany k s = Some (Inr (k', t))
                \<and> length (communityCards t) = max howMany (length (communityCards s))
                \<and> take (length (communityCards s)) (communityCards t) = communityCards s))
       \<and> (card (fresh deck s) < howMany - length (communityCards s)
          \<longrightarrow> buildCommunityCards deck rnd howMany k s = None)
       \<and> ((\<forall>i < length deck. \<forall>k. \<exists>j \<ge> k. rnd j = i)
          \<and> 2 - length pc \<le> card (fresh deck s)
          \<longrightarrow> (\<exists>k' pc' t. drawPlayersCards deck rnd k pc s = Some (Inr (k', pc', t))
                \<and> length pc' = max 2 (length pc)))
       \<and> (card (fresh deck s) < 2 - length pc
          \<longrightarrow> drawPlayersCards deck rnd k pc s = None)"
proof (intro conjI impI)
  assume "(\<forall>i < length deck. \<forall>k. \<exists>j \<ge> k. rnd j = i)
          \<and> howMany - length (communityCards s) \<le> card (fresh deck s)"
  then show "\<exists>k' t. buildCommunityCards deck rnd howMany k s = Some (Inr (k', t))
                \<and> length (communityCards t) = max howMany (length (communityCards s))
                \<and> take (length (communityCards s)) (communityCards t) = communityCards s"
    using assms build_returns [of rnd deck howMany s k] by blast
next
  assume "card (fresh deck s) < howMany - length (communityCards s)"
  then show "buildCommunityCards deck rnd howMany k s = None"
    using assms build_hangs [of rnd deck s howMany k] by blast
next
  assume "(\<forall>i < length deck. \<forall>k. \<exists>j \<ge> k. rnd j = i)
          \<and> 2 - length pc \<le> card (fresh deck s)"
  then show "\<exists>k' pc' t. drawPlayersCards deck rnd k pc s = Some (Inr (k', pc', t))
                \<and> length pc' = max 2 (length pc)"
    using assms draw_returns [of rnd deck pc s k] by blast
next
  assume "card (fresh deck s) < 2 - length pc"
  then show "drawPlayersCards deck rnd k pc s = None"
    using assms draw_hangs [of rnd deck s pc k] by blast
qed

lemma roundRobin_fair:
  "(\<forall>j. roundRobin j < length smallDeck)
   \<and> (\<forall>i < length smallDeck. \<forall>k. \<exists>j \<ge> k. roundRobin j = i)"
proof -
  have l: "length smallDeck = 3" by (simp add: smallDeck_def)
  have a: "\<exists>j \<ge> k. j mod 3 = i" if "i < 3" for i k :: nat
    using that by (intro exI [of _ "3 * k + i"]) simp
  have b: "j mod 3 < 3" for j :: nat by simp
  show ?thesis unfolding roundRobin_def l using a b by blast
qed

lemma aceUsed_fresh: "card (fresh smallDeck aceUsed) = 2"
  by (simp add: fresh_def smallDeck_def aceUsed_def dealReset_def insert_Diff_if)

text \<open>
  Witness for C6: a deck of three cards of which one is used, and draws that go round
  the deck. Two community cards are drawn; the demand for three never returns.
\<close>

theorem draw_loop_returns_or_hangs_witness:
  "(\<exists>k' t. buildCommunityCards smallDeck roundRobin 2 0 aceUsed = Some (Inr (k', t))
        \<and> length (communityCards t) = 2)
   \<and> buildCommunityCards smallDeck roundRobin 3 0 aceUsed = None"
proof -
  have r: "\<forall>j. roundRobin j < length smallDeck" using roundRobin_fair by blast
  have e: "length (communityCards aceUsed) = 0" by (simp add: aceUsed_def dealReset_def)
  from draw_loop_returns_or_hangs [OF r, where howMany = 2 and s = aceUsed and k = 0]
    draw_loop_returns_or_hangs [OF r, where howMany = 3 and s = aceUsed and k = 0]
  show ?thesis
    using roundRobin_fair aceUsed_fresh e by (simp add: max_def)
qed

text \<open>
  Counterexample to C6 as stated: with two fresh cards left and three requested, the
  loop does not end with a signal; it never returns.
\<close>

theorem exhausted_deck_counterexample:
  "card (fresh smallDeck aceUsed) < 3 - length (communityCards aceUsed)
   \<and> buildCommunityCards smallDeck roundRobin 3 0 aceUsed = None"
proof -
  have r: "\<forall>j. roundRobin j < length smallDeck" using roundRobin_fair by blast
  have f: "card (fresh smallDeck aceUsed) < 3 - length (communityCards aceUsed)"
    by (simp add: aceUsed_fresh) (simp add: aceUsed_def dealReset_def)
  from build_hangs [OF r f] f show ?thesis by simp
qed

end
